theory Spec2Isabelle
  imports Complex_Main
begin

section \<open>Python values that travel through the pipeline\<close>

text \<open>
  The pipeline of \<^verbatim>\<open>main.py\<close> moves the result of \<^verbatim>\<open>response.json()\<close> through
  \<^verbatim>\<open>DataTransformer.transform_data\<close> into \<^verbatim>\<open>DatabaseManager.insert_data\<close>. Such a
  value is \<^verbatim>\<open>None\<close>, a \<^verbatim>\<open>bool\<close>, an \<^verbatim>\<open>int\<close> (unbounded), a \<^verbatim>\<open>float\<close>, a
  \<^verbatim>\<open>str\<close>, a \<^verbatim>\<open>list\<close> or a \<^verbatim>\<open>dict\<close> with string keys. A finite float is
  represented by the rational number it denotes; the non-finite floats, which are not
  JSON, are outside the model. A dict is an association list in insertion order; a
  Python dict never holds a key twice, and lookup takes the first entry of a key.
\<close>

datatype json =
    JNull
  | JBool bool
  | JInt int
  | JFloat rat
  | JStr string
  | JArr "json list"
  | JObj "(string \<times> json) list"

text \<open>
  The exceptions the modelled code can raise. \<open>DatabaseError\<close> stands for whatever the
  database engine raises on a rejected statement (an integrity or data fault), and
  \<open>UncaughtRequestError\<close> for an exception of the HTTP library that is no
  \<^verbatim>\<open>RequestException\<close>.
\<close>

datatype py_error =
    KeyError string
  | TypeError
  | AttributeError
  | IndexError
  | DatabaseError string
  | UncaughtRequestError string
  | KeyboardInterrupt

text \<open>Sequencing of two computations that may raise: the first exception wins.\<close>

definition and_then :: "py_error + 'a \<Rightarrow> ('a \<Rightarrow> py_error + 'b) \<Rightarrow> py_error + 'b" where
  "and_then m f = (case m of Inl e \<Rightarrow> Inl e | Inr v \<Rightarrow> f v)"

text \<open>
  \<^verbatim>\<open>x[key]\<close> with a string key: a dict looks the key up and raises \<^verbatim>\<open>KeyError\<close> when
  it is absent; a list, a string, a number, a bool and \<^verbatim>\<open>None\<close> raise
  \<^verbatim>\<open>TypeError\<close>.
\<close>

fun py_getitem :: "json \<Rightarrow> string \<Rightarrow> py_error + json" where
  "py_getitem (JObj d) k = (case map_of d k of None \<Rightarrow> Inl (KeyError k) | Some v \<Rightarrow> Inr v)"
| "py_getitem _ k = Inl TypeError"

text \<open>
  \<^verbatim>\<open>x.get(key)\<close>: on a dict the value or \<^verbatim>\<open>None\<close>; every other value has no
  attribute \<^verbatim>\<open>get\<close>.
\<close>

fun py_get :: "json \<Rightarrow> string \<Rightarrow> py_error + json" where
  "py_get (JObj d) k = (case map_of d k of None \<Rightarrow> Inr JNull | Some v \<Rightarrow> Inr v)"
| "py_get _ k = Inl AttributeError"

text \<open>
  \<^verbatim>\<open>for v in x\<close>: a list yields its elements, a dict its keys, a string its
  one-character substrings; the other values are not iterable.
\<close>

fun py_iter :: "json \<Rightarrow> py_error + json list" where
  "py_iter (JArr xs) = Inr xs"
| "py_iter (JObj d) = Inr (map (\<lambda>kv. JStr (fst kv)) d)"
| "py_iter (JStr s) = Inr (map (\<lambda>c. JStr [c]) s)"
| "py_iter _ = Inl TypeError"

text \<open>Truth value of a Python object, as \<^verbatim>\<open>and\<close>, \<^verbatim>\<open>not\<close> and \<^verbatim>\<open>while\<close> take it.\<close>

fun py_truthy :: "json \<Rightarrow> bool" where
  "py_truthy JNull = False"
| "py_truthy (JBool b) = b"
| "py_truthy (JInt i) = (i \<noteq> 0)"
| "py_truthy (JFloat r) = (r \<noteq> 0)"
| "py_truthy (JStr s) = (s \<noteq> [])"
| "py_truthy (JArr xs) = (xs \<noteq> [])"
| "py_truthy (JObj d) = (d \<noteq> [])"

text \<open>
  \<^verbatim>\<open>x == y\<close>: numbers (bools included) compare by value across their types, strings
  by content, lists element by element, dicts by their keys and the values under them;
  values of different kinds are unequal. \<^verbatim>\<open>x != y\<close> is its negation.
\<close>

fun py_number :: "json \<Rightarrow> rat option" where
  "py_number (JBool b) = Some (if b then 1 else 0)"
| "py_number (JInt i) = Some (of_int i)"
| "py_number (JFloat r) = Some r"
| "py_number _ = None"

function py_eq :: "json \<Rightarrow> json \<Rightarrow> bool"
  and py_eq_list :: "json list \<Rightarrow> json list \<Rightarrow> bool"
  and py_eq_items :: "(string \<times> json) list \<Rightarrow> (string \<times> json) list \<Rightarrow> bool" where
  "py_eq JNull y = (y = JNull)"
| "py_eq (JBool b) y = (py_number y = Some (if b then 1 else 0))"
| "py_eq (JInt i) y = (py_number y = Some (of_int i))"
| "py_eq (JFloat r) y = (py_number y = Some r)"
| "py_eq (JStr s) y = (y = JStr s)"
| "py_eq (JArr xs) y = (case y of JArr ys \<Rightarrow> py_eq_list xs ys | _ \<Rightarrow> False)"
| "py_eq (JObj d) y = (case y of JObj e \<Rightarrow> length d = length e \<and> py_eq_items d e | _ \<Rightarrow> False)"
| "py_eq_list [] ys = (ys = [])"
| "py_eq_list (x # xs) ys = (case ys of [] \<Rightarrow> False | y # ys' \<Rightarrow> py_eq x y \<and> py_eq_list xs ys')"
| "py_eq_items [] e = True"
| "py_eq_items (kv # d) e =
     (case map_of e (fst kv) of None \<Rightarrow> False | Some w \<Rightarrow> py_eq (snd kv) w \<and> py_eq_items d e)"
  by pat_completeness auto
termination
  by (relation "measure (\<lambda>a. case a of
        Inl (x, y) \<Rightarrow> size x
      | Inr (Inl (xs, ys)) \<Rightarrow> size_list size xs
      | Inr (Inr (d, e)) \<Rightarrow> size_list (size_prod (\<lambda>_. 0) size) d)") auto

definition py_ne :: "json \<Rightarrow> json \<Rightarrow> bool" where
  "py_ne x y = (\<not> py_eq x y)"

section \<open>The Record Transformer: \<^verbatim>\<open>DataTransformer.transform_data\<close>\<close>

text \<open>
  A Python tuple of values is a list of values; \<^verbatim>\<open>transform_data\<close> returns a triple of
  lists of tuples (measurements, VDRs, axles).
\<close>

type_synonym pytuple = "json list"

type_synonym transformed = "pytuple list \<times> pytuple list \<times> pytuple list"

text \<open>
  The source builds each tuple from a run of subscript expressions \<^verbatim>\<open>d["k1"], d["k2"], ...\<close>
  evaluated from left to right; the first absent key raises.
\<close>

fun getitems :: "json \<Rightarrow> string list \<Rightarrow> py_error + json list" where
  "getitems d [] = Inr []"
| "getitems d (k # ks) =
     and_then (py_getitem d k) (\<lambda>v. and_then (getitems d ks) (\<lambda>vs. Inr (v # vs)))"

definition measurement_keys :: "string list" where
  "measurement_keys = [''pkMeasurement'', ''id'', ''timestamp'']"

definition vdr_data_keys :: "string list" where
  "vdr_data_keys =
     [''MetrologicalID'', ''LaneNo'', ''ErrorFlag'', ''WarningFlag'', ''Direction'',
      ''MoveStatus'', ''FrontToFront'', ''BackToFront'', ''FrontOverhang'', ''Duration'',
      ''VehicleLength'', ''GrossWeight'', ''LeftWeight'', ''RightWeight'', ''Velocity'',
      ''WheelBase'', ''AxlesCount'', ''MassUnit'', ''VelocityUnit'', ''DistanceUnit'',
      ''Marked'', ''MarkedViolations'', ''VehicleID'', ''StartTime'', ''StartTimeStr'']"

definition axle_keys :: "string list" where
  "axle_keys =
     [''ID'', ''GroupID'', ''Velocity'', ''Weight'', ''LeftWheelWeight'', ''RightWheelWeight'',
      ''LeftRightImbalance'', ''Distance'', ''Track'', ''PatchLengthRight'',
      ''PatchLengthLeft'', ''PatchWidthRight'', ''PatchWidthLeft'', ''PositionRight'',
      ''PositionLeft'', ''SDTireRight'', ''SDTireLeft'', ''TireStatusRight'',
      ''TireStatusLeft'']"

text \<open>
  \<^verbatim>\<open>vdr_entry = (vdr["source"], json_data["pkMeasurement"], vdr_data["MetrologicalID"], ...)\<close>
\<close>

definition vdr_entry :: "json \<Rightarrow> json \<Rightarrow> json \<Rightarrow> py_error + pytuple" where
  "vdr_entry json_data vdr vdr_data =
     and_then (py_getitem vdr ''source'') (\<lambda>source.
     and_then (py_getitem json_data ''pkMeasurement'') (\<lambda>pk.
     and_then (getitems vdr_data vdr_data_keys) (\<lambda>fields.
     Inr (source # pk # fields))))"

text \<open>
  \<^verbatim>\<open>axle_entry = (None, axle["ID"], axle["GroupID"], ...)\<close>: the first component is the
  placeholder for the key of the owning VDR.
\<close>

definition axle_entry :: "json \<Rightarrow> py_error + pytuple" where
  "axle_entry axle = and_then (getitems axle axle_keys) (\<lambda>fields. Inr (JNull # fields))"

text \<open>The inner loop \<^verbatim>\<open>for axle in vdr_data["Axles"]\<close>, appending to \<^verbatim>\<open>axles_data\<close>.\<close>

fun axles_loop :: "json list \<Rightarrow> pytuple list \<Rightarrow> py_error + pytuple list" where
  "axles_loop [] axles_data = Inr axles_data"
| "axles_loop (axle # rest) axles_data =
     and_then (axle_entry axle) (\<lambda>entry. axles_loop rest (axles_data @ [entry]))"

text \<open>
  The outer loop \<^verbatim>\<open>for vdr in json_data["vdRs"]\<close>, appending to \<^verbatim>\<open>vdrs_data\<close> and
  running the inner loop on the shared \<^verbatim>\<open>axles_data\<close>.
\<close>

fun vdrs_loop ::
  "json \<Rightarrow> json list \<Rightarrow> pytuple list \<Rightarrow> pytuple list \<Rightarrow> py_error + (pytuple list \<times> pytuple list)" where
  "vdrs_loop json_data [] vdrs_data axles_data = Inr (vdrs_data, axles_data)"
| "vdrs_loop json_data (vdr # rest) vdrs_data axles_data =
     and_then (py_getitem vdr ''data'') (\<lambda>vdr_data.
     and_then (vdr_entry json_data vdr vdr_data) (\<lambda>entry.
     and_then (py_getitem vdr_data ''Axles'') (\<lambda>axles.
     and_then (py_iter axles) (\<lambda>axle_list.
     and_then (axles_loop axle_list axles_data) (\<lambda>axles_data'.
     vdrs_loop json_data rest (vdrs_data @ [entry]) axles_data')))))"

definition transform_data :: "json \<Rightarrow> py_error + transformed" where
  "transform_data json_data =
     and_then (getitems json_data measurement_keys) (\<lambda>measurement.
     and_then (py_getitem json_data ''vdRs'') (\<lambda>vdRs.
     and_then (py_iter vdRs) (\<lambda>vdr_list.
     and_then (vdrs_loop json_data vdr_list [] []) (\<lambda>r.
     Inr ([measurement], fst r, snd r)))))"

section \<open>What the program prints and does\<close>

text \<open>
  The lines the program prints, one constructor per \<^verbatim>\<open>print\<close> statement of the source,
  and the actions a caller or an outside observer can see. \<open>TransformCall\<close> and
  \<open>InsertCall\<close> mark the calls of \<^verbatim>\<open>transform_data\<close> and \<^verbatim>\<open>insert_data\<close> with their
  arguments.
\<close>

datatype message =
    RequestFailed string
  | WaitingForServer
  | ServerStarted
  | FetchingData
  | NewDataFound json
  | InsertingData
  | DataInserted
  | NoNewData json
  | ErrorFetchingData py_error
  | RetryingIn int
  | MaximumRetriesReached
  | InterruptedByUser

datatype event =
    HttpGet string
  | Print message
  | Sleep int
  | CreateTables
  | TransformCall json
  | InsertCall transformed

section \<open>The Source Adapter: \<^verbatim>\<open>APIClient.fetch_data\<close>\<close>

text \<open>
  The HTTP library is outside the repository. A call \<^verbatim>\<open>requests.get(url)\<close> either
  returns a response, which has a status code and whose \<^verbatim>\<open>json()\<close> method returns the
  parsed body or raises, or it raises itself. An exception of the library is an instance
  of \<^verbatim>\<open>requests.exceptions.RequestException\<close> or it is not; both carry their text.
\<close>

datatype requests_error = RequestException string | OtherException string

datatype http_outcome =
    Response int "requests_error + json"
  | GetRaised requests_error

text \<open>The network at the moment of one call: what a GET of each URL would give.\<close>

type_synonym network = "string \<Rightarrow> http_outcome"

definition RESTAPI_BASE_URL :: string where
  "RESTAPI_BASE_URL = ''http://localhost:5000/''"

definition endpoint_url :: "string \<Rightarrow> string \<Rightarrow> string" where
  "endpoint_url base_url endpoint = base_url @ ''/'' @ endpoint"

text \<open>
  The handler \<^verbatim>\<open>except requests.exceptions.RequestException as e\<close>: it prints, and
  returns the dict \<^verbatim>\<open>{"status": "error", "message": str(e)}\<close>. Any other exception
  leaves \<^verbatim>\<open>fetch_data\<close>.
\<close>

fun on_exception :: "requests_error \<Rightarrow> message list \<times> (py_error + json)" where
  "on_exception (RequestException text) =
     ([RequestFailed text],
      Inr (JObj [(''status'', JStr ''error''), (''message'', JStr text)]))"
| "on_exception (OtherException text) = ([], Inl (UncaughtRequestError text))"

text \<open>
  \<^verbatim>\<open>fetch_data\<close> gives what it prints and what it returns or raises.
\<close>

definition fetch_data :: "string \<Rightarrow> network \<Rightarrow> string \<Rightarrow> message list \<times> (py_error + json)" where
  "fetch_data base_url net endpoint =
     (case net (endpoint_url base_url endpoint) of
        GetRaised e \<Rightarrow> on_exception e
      | Response status_code body \<Rightarrow>
          if status_code = 200 then
            (case body of Inr v \<Rightarrow> ([], Inr v) | Inl e \<Rightarrow> on_exception e)
          else ([], Inr (JObj [(''status'', JStr ''error''), (''code'', JInt status_code)])))"

section \<open>The Persistence Gateway: \<^verbatim>\<open>DatabaseManager.insert_data\<close>\<close>

text \<open>
  The database holds the three tables of \<^verbatim>\<open>models.py\<close>. A row of \<^verbatim>\<open>measurements\<close>
  is its three columns; a row of \<^verbatim>\<open>vdrs\<close> is its generated key \<^verbatim>\<open>vdr_id\<close> and the
  other 27 columns; a row of \<^verbatim>\<open>axles\<close> is its generated key \<^verbatim>\<open>axle_id\<close>, the
  foreign key \<^verbatim>\<open>vdr_id\<close> and the other 19 columns. The two counters are the sequences
  behind the generated keys.
\<close>

record database =
  measurements :: "pytuple list"
  vdrs :: "(nat \<times> pytuple) list"
  axles :: "(nat \<times> nat \<times> pytuple) list"
  vdr_seq :: nat
  axle_seq :: nat

text \<open>
  The mapped objects \<^verbatim>\<open>Measurement(...)\<close>, \<^verbatim>\<open>VDR(...)\<close> and \<^verbatim>\<open>Axle(vdr_id=..., ...)\<close>
  as the source constructs them, before the database has given them a key.
\<close>

datatype orm_object =
    Measurement pytuple
  | VDR pytuple
  | Axle nat pytuple

text \<open>
  The database engine is outside the repository: whether it accepts the INSERT of an
  object, given the rows the transaction sees, is a parameter. A rejected INSERT raises.
\<close>

type_synonym engine = "database \<Rightarrow> orm_object \<Rightarrow> bool"

fun insert_row :: "orm_object \<Rightarrow> database \<Rightarrow> database" where
  "insert_row (Measurement cols) db = db\<lparr>measurements := measurements db @ [cols]\<rparr>"
| "insert_row (VDR cols) db =
     db\<lparr>vdrs := vdrs db @ [(Suc (vdr_seq db), cols)], vdr_seq := Suc (vdr_seq db)\<rparr>"
| "insert_row (Axle vdr_id cols) db =
     db\<lparr>axles := axles db @ [(Suc (axle_seq db), vdr_id, cols)], axle_seq := Suc (axle_seq db)\<rparr>"

text \<open>
  A session: the committed database, the database as the open transaction sees it, and
  the objects added but not yet sent.
\<close>

record session =
  committed :: database
  working :: database
  pending :: "orm_object list"

definition session_add :: "orm_object \<Rightarrow> session \<Rightarrow> session" where
  "session_add ob s = s\<lparr>pending := pending s @ [ob]\<rparr>"

fun flush_objects :: "engine \<Rightarrow> orm_object list \<Rightarrow> database \<Rightarrow> py_error option \<times> database" where
  "flush_objects accepts [] db = (None, db)"
| "flush_objects accepts (ob # obs) db =
     (if accepts db ob then flush_objects accepts obs (insert_row ob db)
      else (Some (DatabaseError ''rejected''), db))"

text \<open>\<^verbatim>\<open>session.flush()\<close>: the pending objects are inserted inside the transaction.\<close>

definition session_flush :: "engine \<Rightarrow> session \<Rightarrow> py_error option \<times> session" where
  "session_flush accepts s =
     (case flush_objects accepts (pending s) (working s) of
        (None, db) \<Rightarrow> (None, s\<lparr>working := db, pending := []\<rparr>)
      | (Some e, db) \<Rightarrow> (Some e, s\<lparr>working := db\<rparr>))"

text \<open>\<^verbatim>\<open>session.commit()\<close>: flush, then make the transaction's rows durable.\<close>

definition session_commit :: "engine \<Rightarrow> session \<Rightarrow> py_error option \<times> session" where
  "session_commit accepts s =
     (case session_flush accepts s of
        (None, s') \<Rightarrow> (None, s'\<lparr>committed := working s'\<rparr>)
      | (Some e, s') \<Rightarrow> (Some e, s'))"

text \<open>
  \<^verbatim>\<open>session.rollback()\<close>: the rows of the open transaction and the pending objects are
  dropped; a sequence keeps the values it has handed out.
\<close>

definition session_rollback :: "session \<Rightarrow> session" where
  "session_rollback s =
     (let db = (committed s)\<lparr>vdr_seq := vdr_seq (working s), axle_seq := axle_seq (working s)\<rparr>
      in \<lparr>committed = db, working = db, pending = []\<rparr>)"

text \<open>\<^verbatim>\<open>session.close()\<close> ends the session; what was not committed is gone.\<close>

definition session_close :: "session \<Rightarrow> database" where
  "session_close s = committed (session_rollback s)"

text \<open>\<^verbatim>\<open>t[i]\<close> on a tuple, and a run of such expressions from left to right.\<close>

definition tuple_getitem :: "pytuple \<Rightarrow> nat \<Rightarrow> py_error + json" where
  "tuple_getitem t i = (if i < length t then Inr (t ! i) else Inl IndexError)"

fun tuple_items :: "pytuple \<Rightarrow> nat list \<Rightarrow> py_error + json list" where
  "tuple_items t [] = Inr []"
| "tuple_items t (i # is) =
     and_then (tuple_getitem t i) (\<lambda>v. and_then (tuple_items t is) (\<lambda>vs. Inr (v # vs)))"

text \<open>
  \<^verbatim>\<open>for m_data in measurements_data\<close>: build \<^verbatim>\<open>Measurement(pkMeasurement=m_data[0],
  id=m_data[1], timestamp=m_data[2])\<close> and add it.
\<close>

fun add_measurements :: "pytuple list \<Rightarrow> session \<Rightarrow> py_error option \<times> session" where
  "add_measurements [] s = (None, s)"
| "add_measurements (m_data # rest) s =
     (case tuple_items m_data [0, 1, 2] of
        Inl e \<Rightarrow> (Some e, s)
      | Inr cols \<Rightarrow> add_measurements rest (session_add (Measurement cols) s))"

text \<open>
  \<^verbatim>\<open>for axle_data in axles_data\<close>: build \<^verbatim>\<open>Axle(vdr_id=vdr.vdr_id, ID=axle_data[1], ...,
  TireStatusLeft=axle_data[19])\<close> and add it. The loop runs over the whole list
  \<^verbatim>\<open>axles_data\<close> for each VDR.
\<close>

fun add_axles :: "nat \<Rightarrow> pytuple list \<Rightarrow> session \<Rightarrow> py_error option \<times> session" where
  "add_axles vdr_id [] s = (None, s)"
| "add_axles vdr_id (axle_data # rest) s =
     (case tuple_items axle_data [1..<20] of
        Inl e \<Rightarrow> (Some e, s)
      | Inr cols \<Rightarrow> add_axles vdr_id rest (session_add (Axle vdr_id cols) s))"

text \<open>
  \<^verbatim>\<open>for vdr_data in vdrs_data\<close>: build \<^verbatim>\<open>VDR(source=vdr_data[0], ...,
  StartTimeStr=vdr_data[26])\<close>, add it, flush so that the database generates
  \<^verbatim>\<open>vdr.vdr_id\<close> (the value the sequence has just handed out: this VDR is the only one
  pending), then add the axles under that key.
\<close>

fun insert_vdrs :: "engine \<Rightarrow> pytuple list \<Rightarrow> pytuple list \<Rightarrow> session \<Rightarrow> py_error option \<times> session" where
  "insert_vdrs accepts [] axles_data s = (None, s)"
| "insert_vdrs accepts (vdr_data # rest) axles_data s =
     (case tuple_items vdr_data [0..<27] of
        Inl e \<Rightarrow> (Some e, s)
      | Inr cols \<Rightarrow>
          (case session_flush accepts (session_add (VDR cols) s) of
             (Some e, s') \<Rightarrow> (Some e, s')
           | (None, s') \<Rightarrow>
               (case add_axles (vdr_seq (working s')) axles_data s' of
                  (Some e, s'') \<Rightarrow> (Some e, s'')
                | (None, s'') \<Rightarrow> insert_vdrs accepts rest axles_data s'')))"

text \<open>
  The body of the \<^verbatim>\<open>try\<close> block: the measurements are added and \<^emph>\<open>committed\<close>
  (\<^verbatim>\<open>session.commit()\<close>), then the VDRs and axles are added and committed.
\<close>

definition insert_body :: "engine \<Rightarrow> transformed \<Rightarrow> session \<Rightarrow> py_error option \<times> session" where
  "insert_body accepts transformed_data s =
     (case transformed_data of (measurements_data, vdrs_data, axles_data) \<Rightarrow>
        (case add_measurements measurements_data s of
           (Some e, s1) \<Rightarrow> (Some e, s1)
         | (None, s1) \<Rightarrow>
             (case session_commit accepts s1 of
                (Some e, s2) \<Rightarrow> (Some e, s2)
              | (None, s2) \<Rightarrow>
                  (case insert_vdrs accepts vdrs_data axles_data s2 of
                     (Some e, s3) \<Rightarrow> (Some e, s3)
                   | (None, s3) \<Rightarrow> session_commit accepts s3))))"

text \<open>
  \<^verbatim>\<open>insert_data\<close>: a new session; on an exception \<^verbatim>\<open>session.rollback()\<close> and the
  exception is raised again; in every case \<^verbatim>\<open>session.close()\<close>. The result is what was
  printed, the exception if one left the call, and the database afterwards.
\<close>

definition insert_data ::
  "engine \<Rightarrow> transformed \<Rightarrow> database \<Rightarrow> message list \<times> py_error option \<times> database" where
  "insert_data accepts transformed_data db =
     (case insert_body accepts transformed_data \<lparr>committed = db, working = db, pending = []\<rparr> of
        (None, s) \<Rightarrow> ([DataInserted], None, session_close s)
      | (Some e, s) \<Rightarrow> ([], Some e, session_close (session_rollback s)))"

section \<open>The Acquisition Loop: \<^verbatim>\<open>WIMDataProcessingApp\<close>\<close>

text \<open>
  Where the loop stands: in the first \<^verbatim>\<open>while\<close> of \<^verbatim>\<open>run\<close> (waiting for the
  server), in the second one with the local variable \<^verbatim>\<open>retries\<close>, after the second
  loop has ended, or dead because an exception left \<^verbatim>\<open>run\<close>.
\<close>

datatype phase =
    WaitingForSource
  | Polling int
  | Terminated
  | Crashed py_error

text \<open>
  The attributes of the application object that the loop reads or writes, and the
  database behind \<^verbatim>\<open>db_manager\<close>.
\<close>

record app =
  phase :: phase
  last_current_id :: json
  max_retries :: int
  retry_delay :: int
  db :: database

definition init_app :: "database \<Rightarrow> app" where
  "init_app d =
     \<lparr>phase = WaitingForSource, last_current_id = JNull, max_retries = 10, retry_delay = 5,
      db = d\<rparr>"

text \<open>
  The Persistence Gateway as the loop sees it: called with the transformed data, it
  prints, possibly raises, and leaves a database. \<^const>\<open>insert_data\<close> with an engine
  is one.
\<close>

type_synonym gateway = "transformed \<Rightarrow> database \<Rightarrow> message list \<times> py_error option \<times> database"

text \<open>
  \<^verbatim>\<open>is_server_running\<close> returns \<^verbatim>\<open>response and response.get("status") == "OK"\<close>: the
  response itself when it is falsy, else the result of the comparison; \<^verbatim>\<open>get\<close> raises
  on a response that is no dict.
\<close>

definition is_server_running :: "network \<Rightarrow> message list \<times> (py_error + json)" where
  "is_server_running net =
     (case fetch_data RESTAPI_BASE_URL net ''health'' of
        (out, Inl e) \<Rightarrow> (out, Inl e)
      | (out, Inr response) \<Rightarrow>
          if py_truthy response then
            (out, and_then (py_get response ''status'') (\<lambda>v. Inr (JBool (py_eq v (JStr ''OK'')))))
          else (out, Inr response))"

text \<open>
  \<^verbatim>\<open>fetch_and_process_data\<close>: what happened, the exception if one left the call, and the
  application afterwards.
\<close>

definition fetch_and_process_data ::
  "gateway \<Rightarrow> network \<Rightarrow> app \<Rightarrow> event list \<times> py_error option \<times> app" where
  "fetch_and_process_data gw net s =
     (let url = endpoint_url RESTAPI_BASE_URL ''data'';
          start = [Print FetchingData, HttpGet url]
      in case fetch_data RESTAPI_BASE_URL net ''data'' of
        (out, Inl e) \<Rightarrow> (start @ map Print out, Some e, s)
      | (out, Inr json_data) \<Rightarrow>
          (case py_get json_data ''id'' of
             Inl e \<Rightarrow> (start @ map Print out, Some e, s)
           | Inr current_id \<Rightarrow>
               if py_ne current_id (last_current_id s) then
                 (let ev1 = start @ map Print out @
                        [Print (NewDataFound current_id), TransformCall json_data]
                  in case transform_data json_data of
                    Inl e \<Rightarrow> (ev1, Some e, s)
                  | Inr transformed_data \<Rightarrow>
                      (let ev2 = ev1 @ [Print InsertingData, InsertCall transformed_data]
                       in case gw transformed_data (db s) of
                         (printed, Some e, d) \<Rightarrow> (ev2 @ map Print printed, Some e, s\<lparr>db := d\<rparr>)
                       | (printed, None, d) \<Rightarrow>
                           (ev2 @ map Print printed @ [Sleep 5], None,
                            s\<lparr>db := d, last_current_id := current_id\<rparr>)))
               else (start @ map Print out @ [Print (NoNewData current_id), Sleep 5], None, s)))"

text \<open>
  What the environment does during one pass of a loop: it answers the HTTP request of
  that pass, or the user interrupts the program while the pass is in
  \<^verbatim>\<open>fetch_and_process_data\<close> (in the first loop: anywhere).
\<close>

datatype cycle_input = Net network | Interrupt

text \<open>The test \<^verbatim>\<open>while retries > 0\<close> at the head of the second loop.\<close>

definition loop_head :: "int \<Rightarrow> app \<Rightarrow> app" where
  "loop_head retries s = s\<lparr>phase := (if retries > 0 then Polling retries else Terminated)\<rparr>"

text \<open>
  One pass of \<^verbatim>\<open>while not self.is_server_running()\<close>. When the server is running the
  tables are created, \<^verbatim>\<open>retries = self.max_retries\<close>, and the second loop is entered.
  Nothing in \<^verbatim>\<open>run\<close> catches an exception here. The simulated server that
  \<^verbatim>\<open>start_server\<close> starts in its own thread is part of the network, and
  \<^verbatim>\<open>create_tables\<close> is taken to succeed: the three tables are always there.
\<close>

definition wait_pass :: "cycle_input \<Rightarrow> app \<Rightarrow> event list \<times> app" where
  "wait_pass inp s =
     (case inp of
        Interrupt \<Rightarrow> ([], s\<lparr>phase := Crashed KeyboardInterrupt\<rparr>)
      | Net net \<Rightarrow>
          (let start = [HttpGet (endpoint_url RESTAPI_BASE_URL ''health'')]
           in case is_server_running net of
             (out, Inl e) \<Rightarrow> (start @ map Print out, s\<lparr>phase := Crashed e\<rparr>)
           | (out, Inr v) \<Rightarrow>
               if \<not> py_truthy v then
                 (start @ map Print out @ [Print WaitingForServer, Sleep 1], s)
               else
                 (start @ map Print out @ [Print ServerStarted, CreateTables],
                  loop_head (max_retries s) s)))"

text \<open>
  One pass of \<^verbatim>\<open>while retries > 0\<close> with its \<^verbatim>\<open>try\<close>, the two handlers and the
  test inside the first handler.
\<close>

definition poll_pass :: "gateway \<Rightarrow> int \<Rightarrow> cycle_input \<Rightarrow> app \<Rightarrow> event list \<times> app" where
  "poll_pass gw retries inp s =
     (case inp of
        Interrupt \<Rightarrow> ([Print InterruptedByUser], s\<lparr>phase := Terminated\<rparr>)
      | Net net \<Rightarrow>
          (case fetch_and_process_data gw net s of
             (ev, None, s') \<Rightarrow> (ev, loop_head retries s')
           | (ev, Some e, s') \<Rightarrow>
               if retries > 0 then
                 (ev @ [Print (ErrorFetchingData e), Print (RetryingIn (retry_delay s')),
                        Sleep (retry_delay s')],
                  loop_head (retries - 1) s')
               else
                 (ev @ [Print (ErrorFetchingData e), Print MaximumRetriesReached],
                  s'\<lparr>phase := Terminated\<rparr>)))"

definition step :: "gateway \<Rightarrow> cycle_input \<Rightarrow> app \<Rightarrow> event list \<times> app" where
  "step gw inp s =
     (case phase s of
        WaitingForSource \<Rightarrow> wait_pass inp s
      | Polling retries \<Rightarrow> poll_pass gw retries inp s
      | Terminated \<Rightarrow> ([], s)
      | Crashed e \<Rightarrow> ([], s))"

text \<open>\<^verbatim>\<open>run\<close>, as far as the given inputs take it.\<close>

fun run :: "gateway \<Rightarrow> cycle_input list \<Rightarrow> app \<Rightarrow> event list \<times> app" where
  "run gw [] s = ([], s)"
| "run gw (inp # rest) s =
     (case step gw inp s of (ev, s') \<Rightarrow>
        (case run gw rest s' of (ev', s'') \<Rightarrow> (ev @ ev', s'')))"

section \<open>Reading a snapshot\<close>

text \<open>
  Selectors used to state what the transformer copies: the value under a key of a dict
  and the elements of a list. They are total; where the source would raise they give
  \<open>JNull\<close> and the empty list.
\<close>

fun item :: "json \<Rightarrow> string \<Rightarrow> json" where
  "item (JObj d) k = (case map_of d k of None \<Rightarrow> JNull | Some v \<Rightarrow> v)"
| "item _ k = JNull"

fun elements :: "json \<Rightarrow> json list" where
  "elements (JArr xs) = xs"
| "elements _ = []"

fun is_array :: "json \<Rightarrow> bool" where
  "is_array (JArr xs) = True"
| "is_array _ = False"

text \<open>A dict that has every key of a list.\<close>

fun has_keys :: "json \<Rightarrow> string list \<Rightarrow> bool" where
  "has_keys (JObj d) ks = list_all (\<lambda>k. map_of d k \<noteq> None) ks"
| "has_keys _ ks = False"

text \<open>
  A valid raw snapshot: an object with the four top-level keys whose \<^verbatim>\<open>vdRs\<close> is a list
  of objects with \<^verbatim>\<open>source\<close> and \<^verbatim>\<open>data\<close>, each \<^verbatim>\<open>data\<close> an object with the 25 scalar
  keys and a list \<^verbatim>\<open>Axles\<close> of objects with the 19 axle keys.
\<close>

definition valid_axle :: "json \<Rightarrow> bool" where
  "valid_axle axle = has_keys axle axle_keys"

definition valid_vdr :: "json \<Rightarrow> bool" where
  "valid_vdr vdr =
     (has_keys vdr [''data'', ''source''] \<and>
      has_keys (item vdr ''data'') (vdr_data_keys @ [''Axles'']) \<and>
      is_array (item (item vdr ''data'') ''Axles'') \<and>
      list_all valid_axle (elements (item (item vdr ''data'') ''Axles'')))"

definition valid_snapshot :: "json \<Rightarrow> bool" where
  "valid_snapshot json_data =
     (has_keys json_data (measurement_keys @ [''vdRs'']) \<and>
      is_array (item json_data ''vdRs'') \<and>
      list_all valid_vdr (elements (item json_data ''vdRs'')))"

text \<open>
  A malformed snapshot. Where the transformer needs an object with certain keys (the
  top-level value, an element of \<^verbatim>\<open>vdRs\<close>, its \<^verbatim>\<open>data\<close>, an element of \<^verbatim>\<open>Axles\<close>),
  the value is no object or a key is absent; or where it needs a list (\<^verbatim>\<open>vdRs\<close>,
  \<^verbatim>\<open>Axles\<close>), the value cannot be iterated or iterating it gives a malformed element.
  Iterating a dict or a string gives strings, which are no objects, so only the empty
  dict and the empty string pass for a list.
\<close>

fun bad_list :: "(json \<Rightarrow> bool) \<Rightarrow> json \<Rightarrow> bool" where
  "bad_list bad (JArr xs) = list_ex bad xs"
| "bad_list bad (JObj d) = (d \<noteq> [])"
| "bad_list bad (JStr s) = (s \<noteq> [])"
| "bad_list bad _ = True"

definition axle_malformed :: "json \<Rightarrow> bool" where
  "axle_malformed axle = (\<not> has_keys axle axle_keys)"

definition vdr_malformed :: "json \<Rightarrow> bool" where
  "vdr_malformed vdr =
     (\<not> has_keys vdr [''data'', ''source''] \<or>
      \<not> has_keys (item vdr ''data'') (vdr_data_keys @ [''Axles'']) \<or>
      bad_list axle_malformed (item (item vdr ''data'') ''Axles''))"

definition snapshot_malformed :: "json \<Rightarrow> bool" where
  "snapshot_malformed json_data =
     (\<not> has_keys json_data (measurement_keys @ [''vdRs'']) \<or>
      bad_list vdr_malformed (item json_data ''vdRs''))"

text \<open>The tuples the transformer is to build from a valid snapshot, field by field.\<close>

definition copied_vdr :: "json \<Rightarrow> json \<Rightarrow> pytuple" where
  "copied_vdr json_data vdr =
     item vdr ''source'' # item json_data ''pkMeasurement'' #
     map (item (item vdr ''data'')) vdr_data_keys"

definition copied_axle :: "json \<Rightarrow> pytuple" where
  "copied_axle axle = JNull # map (item axle) axle_keys"

definition axles_of :: "json \<Rightarrow> json list" where
  "axles_of vdr = elements (item (item vdr ''data'') ''Axles'')"

subsection \<open>Example data\<close>

text \<open>
  The snapshot of the end-to-end scenario: measurement 7 with one VDR from source
  \<^verbatim>\<open>A\<close> and one axle of weight 100.
\<close>

definition example_axle :: json where
  "example_axle = JObj
     [(''ID'', JInt 1), (''GroupID'', JInt 0), (''Velocity'', JFloat (531 / 10)),
      (''Weight'', JInt 100), (''LeftWheelWeight'', JInt 48), (''RightWheelWeight'', JInt 52),
      (''LeftRightImbalance'', JFloat 48), (''Distance'', JFloat (121 / 100)),
      (''Track'', JInt 0), (''PatchLengthRight'', JFloat (17 / 100)),
      (''PatchLengthLeft'', JFloat (17 / 100)), (''PatchWidthRight'', JInt 0),
      (''PatchWidthLeft'', JInt 0), (''PositionRight'', JInt 0), (''PositionLeft'', JInt 0),
      (''SDTireRight'', JStr ''N''), (''SDTireLeft'', JStr ''N''),
      (''TireStatusRight'', JStr ''N/A''), (''TireStatusLeft'', JStr ''N/A'')]"

definition example_vdr_data :: json where
  "example_vdr_data = JObj
     [(''MetrologicalID'', JStr ''0x13844B5D''), (''LaneNo'', JInt 1),
      (''ErrorFlag'', JInt 0), (''WarningFlag'', JInt 0), (''Direction'', JInt 0),
      (''MoveStatus'', JInt (- 1)), (''FrontToFront'', JFloat (5731 / 1000)),
      (''BackToFront'', JFloat (4478 / 1000)), (''FrontOverhang'', JInt 0),
      (''Duration'', JFloat (3 / 2)), (''VehicleLength'', JFloat (5 / 2)),
      (''GrossWeight'', JInt 100), (''LeftWeight'', JInt 48), (''RightWeight'', JInt 52),
      (''Velocity'', JFloat (531 / 10)), (''WheelBase'', JFloat (121 / 100)),
      (''AxlesCount'', JInt 1), (''MassUnit'', JStr ''kg''), (''VelocityUnit'', JStr ''km/h''),
      (''DistanceUnit'', JStr ''m''), (''Axles'', JArr [example_axle]),
      (''Marked'', JBool False), (''MarkedViolations'', JBool False),
      (''VehicleID'', JStr []), (''StartTime'', JInt 1704067200000),
      (''StartTimeStr'', JStr ''2024-01-01T00:00:00'')]"

definition example_vdr :: json where
  "example_vdr = JObj [(''source'', JStr ''A''), (''data'', example_vdr_data)]"

definition example_snapshot :: json where
  "example_snapshot = JObj
     [(''pkMeasurement'', JInt 7), (''id'', JStr ''7''),
      (''timestamp'', JStr ''2024-01-01T00:00:00''), (''vdRs'', JArr [example_vdr])]"

definition empty_database :: database where
  "empty_database = \<lparr>measurements = [], vdrs = [], axles = [], vdr_seq = 0, axle_seq = 0\<rparr>"

text \<open>The exceptions a subscript or a \<^verbatim>\<open>for\<close> can raise.\<close>

fun is_lookup_error :: "py_error \<Rightarrow> bool" where
  "is_lookup_error (KeyError k) = True"
| "is_lookup_error TypeError = True"
| "is_lookup_error _ = False"

text \<open>What the transformer makes of the example snapshot.\<close>

definition example_measurement_tuple :: pytuple where
  "example_measurement_tuple = [JInt 7, JStr ''7'', JStr ''2024-01-01T00:00:00'']"

definition example_vdr_tuple :: pytuple where
  "example_vdr_tuple =
     [JStr ''A'', JInt 7, JStr ''0x13844B5D'', JInt 1, JInt 0, JInt 0, JInt 0, JInt (- 1),
      JFloat (5731 / 1000), JFloat (4478 / 1000), JInt 0, JFloat (3 / 2), JFloat (5 / 2),
      JInt 100, JInt 48, JInt 52, JFloat (531 / 10), JFloat (121 / 100), JInt 1, JStr ''kg'',
      JStr ''km/h'', JStr ''m'', JBool False, JBool False, JStr [], JInt 1704067200000,
      JStr ''2024-01-01T00:00:00'']"

definition example_axle_tuple :: pytuple where
  "example_axle_tuple =
     [JNull, JInt 1, JInt 0, JFloat (531 / 10), JInt 100, JInt 48, JInt 52, JFloat 48,
      JFloat (121 / 100), JInt 0, JFloat (17 / 100), JFloat (17 / 100), JInt 0, JInt 0,
      JInt 0, JInt 0, JStr ''N'', JStr ''N'', JStr ''N/A'', JStr ''N/A'']"

definition example_transformed :: transformed where
  "example_transformed = ([example_measurement_tuple], [example_vdr_tuple], [example_axle_tuple])"

subsection \<open>The net effect of a successful insert\<close>

text \<open>What the session will have inserted once its pending objects are flushed.\<close>

definition outlook :: "session \<Rightarrow> database" where
  "outlook s = fold insert_row (pending s) (working s)"

text \<open>
  The database once the VDR loop has run and everything is flushed: for each VDR tuple
  its row, under the next key of the sequence, and then one axle row under that key for
  each tuple of the whole list \<^verbatim>\<open>axles_data\<close>.
\<close>

fun vdr_effect :: "pytuple list \<Rightarrow> pytuple list \<Rightarrow> database \<Rightarrow> database" where
  "vdr_effect [] axles_data d = d"
| "vdr_effect (v # vs) axles_data d =
     vdr_effect vs axles_data
       (fold insert_row (map (\<lambda>a. Axle (Suc (vdr_seq d)) (map ((!) a) [1..<20])) axles_data)
          (insert_row (VDR (map ((!) v) [0..<27])) d))"


subsection \<open>Example engines and inputs of the gateway\<close>

text \<open>
  An engine that accepts every row, one that rejects every row of \<^verbatim>\<open>vdrs\<close> (as a
  database does whose \<^verbatim>\<open>vdrs\<close> table refuses the row: a data or integrity fault), and
  one that rejects everything (a database that is down).
\<close>

definition accept_all :: engine where
  "accept_all d ob = True"

definition reject_vdrs :: engine where
  "reject_vdrs d ob = (case ob of VDR cols \<Rightarrow> False | _ \<Rightarrow> True)"

definition reject_all :: engine where
  "reject_all d ob = False"

text \<open>What the transformer returns for a snapshot with the example VDR twice.\<close>

definition two_vdrs_transformed :: transformed where
  "two_vdrs_transformed =
     ([example_measurement_tuple], [example_vdr_tuple, example_vdr_tuple],
      [example_axle_tuple, example_axle_tuple])"

subsection \<open>Answers of the server, as the loop classifies them\<close>

definition health_url :: string where
  "health_url = endpoint_url RESTAPI_BASE_URL ''health''"

definition data_url :: string where
  "data_url = endpoint_url RESTAPI_BASE_URL ''data''"

text \<open>
  A healthy answer: status 200 and a JSON object whose entry \<^verbatim>\<open>status\<close> is the string
  \<^verbatim>\<open>OK\<close>.
\<close>

fun reports_ok :: "http_outcome \<Rightarrow> bool" where
  "reports_ok (Response status_code (Inr (JObj d))) =
     (status_code = 200 \<and> map_of d ''status'' = Some (JStr ''OK''))"
| "reports_ok _ = False"

text \<open>
  An answer that the health check reads without raising: a transport error, a status
  other than 200, or status 200 with a body that is a JSON object, a falsy value, or
  undecodable in the way of a \<^verbatim>\<open>RequestException\<close>.
\<close>

fun is_object :: "json \<Rightarrow> bool" where
  "is_object (JObj d) = True"
| "is_object _ = False"

fun plain_answer :: "http_outcome \<Rightarrow> bool" where
  "plain_answer (GetRaised (RequestException text)) = True"
| "plain_answer (GetRaised (OtherException text)) = False"
| "plain_answer (Response status_code (Inr v)) =
     (status_code \<noteq> 200 \<or> is_object v \<or> \<not> py_truthy v)"
| "plain_answer (Response status_code (Inl (RequestException text))) = True"
| "plain_answer (Response status_code (Inl (OtherException text))) = (status_code \<noteq> 200)"

text \<open>
  An outcome in which nothing but a \<^verbatim>\<open>RequestException\<close> is raised, by the request
  or by \<^verbatim>\<open>response.json()\<close> (which is called on status 200 only).
\<close>

fun only_request_exceptions :: "http_outcome \<Rightarrow> bool" where
  "only_request_exceptions (GetRaised (RequestException text)) = True"
| "only_request_exceptions (GetRaised (OtherException text)) = False"
| "only_request_exceptions (Response status_code (Inr v)) = True"
| "only_request_exceptions (Response status_code (Inl (RequestException text))) = True"
| "only_request_exceptions (Response status_code (Inl (OtherException text))) = (status_code \<noteq> 200)"

text \<open>A failed fetch: a transport error or a status other than 200.\<close>

fun failed_fetch :: "http_outcome \<Rightarrow> bool" where
  "failed_fetch (GetRaised (RequestException text)) = True"
| "failed_fetch (Response status_code body) = (status_code \<noteq> 200)"
| "failed_fetch _ = False"

subsection \<open>Example runs\<close>

text \<open>
  A server that is up and serves the example snapshot, one that answers every request
  with status 503, one that refuses the connection, one that answers with more than the
  status, and one that answers with a JSON string.
\<close>

definition example_net :: network where
  "example_net url =
     (if url = endpoint_url RESTAPI_BASE_URL ''health''
      then Response 200 (Inr (JObj [(''status'', JStr ''OK'')]))
      else Response 200 (Inr example_snapshot))"

definition unavailable_net :: network where
  "unavailable_net url = Response 503 (Inr (JStr ''Service Unavailable''))"

definition refusing_net :: network where
  "refusing_net url = GetRaised (RequestException ''Connection refused'')"

definition verbose_health_net :: network where
  "verbose_health_net url =
     Response 200 (Inr (JObj [(''status'', JStr ''OK''), (''uptime'', JInt 1)]))"

definition string_health_net :: network where
  "string_health_net url = Response 200 (Inr (JStr ''starting''))"

text \<open>
  A server that answers with status 200 and a body that is no JSON, met by a version of
  the HTTP library whose \<^verbatim>\<open>json()\<close> raises a \<^verbatim>\<open>ValueError\<close> that is no
  \<^verbatim>\<open>RequestException\<close>.
\<close>

definition undecodable_net :: network where
  "undecodable_net url = Response 200 (Inl (OtherException ''Expecting value''))"

text \<open>
  The application in its second loop, before any snapshot was processed and after the
  example snapshot was processed.
\<close>

definition polling_app :: app where
  "polling_app = (init_app empty_database)\<lparr>phase := Polling 10\<rparr>"

definition after_example :: app where
  "after_example =
     polling_app\<lparr>db := snd (snd (insert_data accept_all example_transformed empty_database)),
                 last_current_id := JStr ''7''\<rparr>"

text \<open>What one pass does when the example snapshot is new and the database rejects it.\<close>

definition rejected_pass_events :: "event list" where
  "rejected_pass_events =
     [Print FetchingData, HttpGet data_url, Print (NewDataFound (JStr ''7'')),
      TransformCall example_snapshot, Print InsertingData, InsertCall example_transformed,
      Print (ErrorFetchingData (DatabaseError ''rejected'')), Print (RetryingIn 5), Sleep 5]"

section \<open>Properties of the Record Transformer\<close>


lemma and_then_Inr [simp]: "and_then (Inr v) f = f v"
  by (simp add: and_then_def)

lemma and_then_Inl [simp]: "and_then (Inl e) f = Inl e"
  by (simp add: and_then_def)

lemma and_then_eq_Inr:
  "and_then m f = Inr r \<longleftrightarrow> (\<exists>v. m = Inr v \<and> f v = Inr r)"
  by (cases m) simp_all

lemma has_keys_Cons: "has_keys d (k # ks) \<Longrightarrow> py_getitem d k = Inr (item d k) \<and> has_keys d ks"
  by (cases d) auto

lemma getitems_has_keys: "has_keys d ks \<Longrightarrow> getitems d ks = Inr (map (item d) ks)"
proof (induction ks)
  case Nil
  show ?case by simp
next
  case (Cons k ks)
  from Cons.prems have "py_getitem d k = Inr (item d k)" and "has_keys d ks"
    using has_keys_Cons by blast+
  with Cons.IH show ?case by simp
qed

lemma has_keys_append: "has_keys d (ks @ ks') \<longleftrightarrow> has_keys d ks \<and> has_keys d ks'"
  by (cases d) auto

lemma has_keys_single: "has_keys d [k] \<Longrightarrow> py_getitem d k = Inr (item d k)"
  using has_keys_Cons by blast

lemma axle_entry_valid: "valid_axle a \<Longrightarrow> axle_entry a = Inr (copied_axle a)"
  by (simp add: valid_axle_def axle_entry_def copied_axle_def getitems_has_keys)

lemma axles_loop_valid:
  "list_all valid_axle as \<Longrightarrow> axles_loop as acc = Inr (acc @ map copied_axle as)"
  by (induction as arbitrary: acc) (simp_all add: axle_entry_valid)

lemma is_array_iter: "is_array x \<Longrightarrow> py_iter x = Inr (elements x)"
  by (cases x) simp_all

lemma vdr_valid_steps:
  assumes "valid_vdr v" and "has_keys j [''pkMeasurement'']"
  shows "py_getitem v ''data'' = Inr (item v ''data'')"
    and "vdr_entry j v (item v ''data'') = Inr (copied_vdr j v)"
    and "py_getitem (item v ''data'') ''Axles'' = Inr (item (item v ''data'') ''Axles'')"
    and "py_iter (item (item v ''data'') ''Axles'') = Inr (axles_of v)"
    and "list_all valid_axle (axles_of v)"
proof -
  from assms(1) have k: "has_keys v [''data'', ''source'']"
    and d: "has_keys (item v ''data'') vdr_data_keys"
    and a: "has_keys (item v ''data'') [''Axles'']"
    and arr: "is_array (item (item v ''data'') ''Axles'')"
    and ax: "list_all valid_axle (elements (item (item v ''data'') ''Axles''))"
    by (simp_all add: valid_vdr_def has_keys_append)
  from k show "py_getitem v ''data'' = Inr (item v ''data'')"
    using has_keys_Cons by blast
  from k have s: "py_getitem v ''source'' = Inr (item v ''source'')"
    by (cases v) auto
  from assms(2) have p: "py_getitem j ''pkMeasurement'' = Inr (item j ''pkMeasurement'')"
    by (rule has_keys_single)
  from s p d show "vdr_entry j v (item v ''data'') = Inr (copied_vdr j v)"
    by (simp add: vdr_entry_def copied_vdr_def getitems_has_keys)
  from a show "py_getitem (item v ''data'') ''Axles'' = Inr (item (item v ''data'') ''Axles'')"
    by (rule has_keys_single)
  from arr show "py_iter (item (item v ''data'') ''Axles'') = Inr (axles_of v)"
    by (simp add: is_array_iter axles_of_def)
  from ax show "list_all valid_axle (axles_of v)"
    by (simp add: axles_of_def)
qed

lemma vdrs_loop_valid:
  assumes "has_keys j [''pkMeasurement'']"
  shows "list_all valid_vdr vs \<Longrightarrow>
    vdrs_loop j vs vacc aacc =
      Inr (vacc @ map (copied_vdr j) vs, aacc @ concat (map (\<lambda>v. map copied_axle (axles_of v)) vs))"
proof (induction vs arbitrary: vacc aacc)
  case Nil
  show ?case by simp
next
  case (Cons v vs)
  from Cons.prems have v: "valid_vdr v" and rest: "list_all valid_vdr vs"
    by simp_all
  note st = vdr_valid_steps [OF v assms]
  show ?case
    by (simp add: st axles_loop_valid [OF st(5)] Cons.IH [OF rest])
qed

lemma transform_data_valid:
  assumes "valid_snapshot json_data"
  shows "transform_data json_data =
           Inr ([map (item json_data) measurement_keys],
                map (copied_vdr json_data) (elements (item json_data ''vdRs'')),
                concat (map (\<lambda>vdr. map copied_axle (axles_of vdr))
                  (elements (item json_data ''vdRs''))))"
proof -
  from assms have m: "has_keys json_data measurement_keys"
    and v: "has_keys json_data [''vdRs'']"
    and arr: "is_array (item json_data ''vdRs'')"
    and vs: "list_all valid_vdr (elements (item json_data ''vdRs''))"
    by (simp_all add: valid_snapshot_def has_keys_append)
  from m have pk: "has_keys json_data [''pkMeasurement'']"
    by (cases json_data) (simp_all add: measurement_keys_def)
  show ?thesis
    by (simp add: transform_data_def getitems_has_keys [OF m] has_keys_single [OF v]
        is_array_iter [OF arr] vdrs_loop_valid [OF pk vs])
qed

text \<open>
  C4. For every valid raw snapshot \<^verbatim>\<open>transform_data\<close> returns exactly one measurement
  tuple, one VDR tuple for each element of \<^verbatim>\<open>vdRs\<close> and one axle tuple for each element
  of each \<^verbatim>\<open>Axles\<close> list, in order; every field of a tuple is the value found under its
  key in the snapshot, unchanged.
\<close>

theorem transform_valid:
  assumes "valid_snapshot json_data"
  shows "transform_data json_data =
           Inr ([map (item json_data) measurement_keys],
                map (copied_vdr json_data) (elements (item json_data ''vdRs'')),
                concat (map (\<lambda>vdr. map copied_axle (axles_of vdr))
                  (elements (item json_data ''vdRs''))))
         \<and> length (map (copied_vdr json_data) (elements (item json_data ''vdRs'')))
             = length (elements (item json_data ''vdRs''))
         \<and> length (concat (map (\<lambda>vdr. map copied_axle (axles_of vdr))
                  (elements (item json_data ''vdRs''))))
             = sum_list (map (\<lambda>vdr. length (axles_of vdr)) (elements (item json_data ''vdRs'')))"
proof -
  have "length (concat (map (\<lambda>vdr. map copied_axle (axles_of vdr))
                  (elements (item json_data ''vdRs''))))
             = sum_list (map (\<lambda>vdr. length (axles_of vdr)) (elements (item json_data ''vdRs'')))"
    by (simp add: length_concat comp_def)
  with transform_data_valid [OF assms] show ?thesis by simp
qed

lemma and_then_eq_Inl:
  "and_then m f = Inl e \<longleftrightarrow> m = Inl e \<or> (\<exists>v. m = Inr v \<and> f v = Inl e)"
  by (cases m) simp_all

lemma py_getitem_Inr: "py_getitem d k = Inr v \<Longrightarrow> has_keys d [k] \<and> v = item d k"
  by (cases d) (auto split: option.splits)

lemma getitems_Inr: "getitems d ks = Inr vs \<Longrightarrow> ks \<noteq> [] \<Longrightarrow> has_keys d ks"
proof (induction ks arbitrary: vs)
  case Nil
  then show ?case by simp
next
  case (Cons k ks)
  from Cons.prems obtain v vs' where v: "py_getitem d k = Inr v" and r: "getitems d ks = Inr vs'"
    by (auto simp: and_then_eq_Inr)
  from v have k: "has_keys d [k]"
    using py_getitem_Inr by blast
  show ?case
  proof (cases "ks = []")
    case True
    with k show ?thesis by simp
  next
    case False
    with Cons.IH [OF r] have "has_keys d ks" .
    with k have "has_keys d ([k] @ ks)"
      unfolding has_keys_append by simp
    then show ?thesis by simp
  qed
qed

lemma axles_loop_Inr: "axles_loop as acc = Inr r \<Longrightarrow> \<not> list_ex axle_malformed as"
proof (induction as arbitrary: acc)
  case Nil
  show ?case by simp
next
  case (Cons a as)
  from Cons.prems obtain e where e: "axle_entry a = Inr e" and r: "axles_loop as (acc @ [e]) = Inr r"
    by (auto simp: and_then_eq_Inr)
  from e obtain fs where "getitems a axle_keys = Inr fs"
    by (auto simp: axle_entry_def and_then_eq_Inr)
  then have "has_keys a axle_keys"
    by (rule getitems_Inr) (simp add: axle_keys_def)
  with Cons.IH [OF r] show ?case
    by (simp add: axle_malformed_def)
qed

text \<open>A loop that ran to its end over what \<^verbatim>\<open>for\<close> got out of a value.\<close>

lemma py_iter_good:
  assumes "py_iter x = Inr xs" and "\<not> list_ex bad xs" and "\<And>s. bad (JStr s)"
  shows "\<not> bad_list bad x"
proof (cases x)
  case (JArr ys)
  with assms(1,2) show ?thesis by simp
next
  case (JObj d)
  with assms show ?thesis by (cases d) auto
next
  case (JStr s)
  with assms show ?thesis by (cases s) auto
qed (use assms(1) in simp_all)

lemma vdrs_loop_Inr: "vdrs_loop j vs vacc aacc = Inr r \<Longrightarrow> \<not> list_ex vdr_malformed vs"
proof (induction vs arbitrary: vacc aacc)
  case Nil
  show ?case by simp
next
  case (Cons v vs)
  from Cons.prems obtain d e ax al aacc' where
    d: "py_getitem v ''data'' = Inr d" and e: "vdr_entry j v d = Inr e" and
    ax: "py_getitem d ''Axles'' = Inr ax" and al: "py_iter ax = Inr al" and
    lp: "axles_loop al aacc = Inr aacc'" and
    r: "vdrs_loop j vs (vacc @ [e]) aacc' = Inr r"
    by (auto simp: and_then_eq_Inr)
  from d have d': "d = item v ''data''" and k1: "has_keys v [''data'']"
    using py_getitem_Inr by blast+
  from e obtain s fs where "py_getitem v ''source'' = Inr s" and fs: "getitems d vdr_data_keys = Inr fs"
    by (auto simp: vdr_entry_def and_then_eq_Inr)
  then have k2: "has_keys v [''source'']"
    using py_getitem_Inr by blast
  from fs have k3: "has_keys d vdr_data_keys"
    by (rule getitems_Inr) (simp add: vdr_data_keys_def)
  from ax have k4: "has_keys d [''Axles'']" and ax': "ax = item d ''Axles''"
    using py_getitem_Inr by blast+
  from lp have "\<not> list_ex axle_malformed al"
    by (rule axles_loop_Inr)
  with al have k5: "\<not> bad_list axle_malformed ax"
    by (rule py_iter_good) (simp add: axle_malformed_def)
  from k1 k2 have "has_keys v ([''data''] @ [''source''])"
    unfolding has_keys_append by simp
  with k3 k4 k5 d' ax' have "\<not> vdr_malformed v"
    by (simp add: vdr_malformed_def has_keys_append)
  with Cons.IH [OF r] show ?case by simp
qed

lemma transform_data_Inr: "transform_data j = Inr r \<Longrightarrow> \<not> snapshot_malformed j"
proof -
  assume "transform_data j = Inr r"
  then obtain m v vl r' where m: "getitems j measurement_keys = Inr m"
    and v: "py_getitem j ''vdRs'' = Inr v" and vl: "py_iter v = Inr vl"
    and lp: "vdrs_loop j vl [] [] = Inr r'"
    by (auto simp: transform_data_def and_then_eq_Inr)
  from m have "has_keys j measurement_keys"
    by (rule getitems_Inr) (simp add: measurement_keys_def)
  moreover from v have "has_keys j [''vdRs'']" and v': "v = item j ''vdRs''"
    using py_getitem_Inr by blast+
  ultimately have "has_keys j (measurement_keys @ [''vdRs''])"
    unfolding has_keys_append by simp
  moreover from lp have "\<not> list_ex vdr_malformed vl"
    by (rule vdrs_loop_Inr)
  with vl have "\<not> bad_list vdr_malformed v"
    by (rule py_iter_good) (simp add: vdr_malformed_def)
  ultimately show ?thesis
    using v' by (simp add: snapshot_malformed_def)
qed

lemma py_getitem_error: "py_getitem d k = Inl e \<Longrightarrow> is_lookup_error e"
  by (cases d) (auto split: option.splits)

lemma py_iter_error: "py_iter x = Inl e \<Longrightarrow> is_lookup_error e"
  by (cases x) auto

lemma getitems_error: "getitems d ks = Inl e \<Longrightarrow> is_lookup_error e"
  by (induction ks) (auto simp: and_then_eq_Inl dest: py_getitem_error)

lemma axles_loop_error: "axles_loop as acc = Inl e \<Longrightarrow> is_lookup_error e"
  by (induction as arbitrary: acc)
    (auto simp: and_then_eq_Inl axle_entry_def dest: getitems_error)

lemma vdr_entry_error: "vdr_entry j v d = Inl e \<Longrightarrow> is_lookup_error e"
  by (auto simp: vdr_entry_def and_then_eq_Inl dest: getitems_error py_getitem_error)

lemma vdrs_loop_error: "vdrs_loop j vs vacc aacc = Inl e \<Longrightarrow> is_lookup_error e"
proof (induction vs arbitrary: vacc aacc)
  case Nil
  then show ?case by simp
next
  case (Cons v vs)
  from Cons.prems show ?case
    by (auto simp: and_then_eq_Inl
        dest: py_getitem_error py_iter_error vdr_entry_error axles_loop_error Cons.IH)
qed

lemma transform_data_error: "transform_data j = Inl e \<Longrightarrow> is_lookup_error e"
  by (auto simp: transform_data_def and_then_eq_Inl
      dest: getitems_error py_getitem_error py_iter_error vdrs_loop_error)

text \<open>
  The part of C5 that holds. For every raw snapshot in which a required key is absent,
  or in which a value that the transformer subscripts or iterates has the wrong type
  (the top-level value, an element of \<^verbatim>\<open>vdRs\<close>, its \<^verbatim>\<open>data\<close> or an element of
  \<^verbatim>\<open>Axles\<close> is no object; \<^verbatim>\<open>vdRs\<close> or \<^verbatim>\<open>Axles\<close> is no list, the empty dict and the
  empty string apart), \<^verbatim>\<open>transform_data\<close> raises a \<^verbatim>\<open>KeyError\<close> or a \<^verbatim>\<open>TypeError\<close>
  and returns no tuples: a missing field is never defaulted.
\<close>

lemma transform_malformed:
  assumes "snapshot_malformed json_data"
  shows "\<exists>e. transform_data json_data = Inl e \<and> is_lookup_error e"
proof (cases "transform_data json_data")
  case (Inl e)
  then show ?thesis using transform_data_error by blast
next
  case (Inr r)
  with assms show ?thesis using transform_data_Inr by blast
qed

subsection \<open>The example snapshot\<close>

lemma valid_axle_example: "valid_axle example_axle"
  by code_simp

lemma valid_vdr_data_example: "has_keys example_vdr_data (vdr_data_keys @ [''Axles''])"
  by code_simp

lemma example_axles: "item example_vdr_data ''Axles'' = JArr [example_axle]"
  by (simp add: example_vdr_data_def)

lemma example_data: "item example_vdr ''data'' = example_vdr_data"
  by (simp add: example_vdr_def)

lemma valid_vdr_example: "valid_vdr example_vdr"
  unfolding valid_vdr_def example_data example_axles
  by (simp add: valid_vdr_data_example valid_axle_example) (simp add: example_vdr_def)

lemma example_vdRs: "elements (item example_snapshot ''vdRs'') = [example_vdr]"
  by (simp add: example_snapshot_def)

lemma valid_snapshot_example: "valid_snapshot example_snapshot"
  unfolding valid_snapshot_def example_vdRs
  by (simp add: valid_vdr_example) (simp add: example_snapshot_def measurement_keys_def)

lemma copied_axle_example: "copied_axle example_axle = example_axle_tuple"
  by code_simp

lemma copied_vdr_example: "copied_vdr example_snapshot example_vdr = example_vdr_tuple"
  by code_simp

lemma copied_measurement_example:
  "map (item example_snapshot) measurement_keys = example_measurement_tuple"
  by code_simp

theorem transform_valid_witness:
  "valid_snapshot example_snapshot \<and>
   transform_data example_snapshot =
     Inr ([example_measurement_tuple], [example_vdr_tuple], [example_axle_tuple])"
  using transform_valid [OF valid_snapshot_example]
  by (simp add: valid_snapshot_example example_vdRs axles_of_def example_data example_axles
      copied_axle_example copied_vdr_example copied_measurement_example)

lemma transform_example: "transform_data example_snapshot = Inr example_transformed"
  using transform_data_valid [OF valid_snapshot_example]
  by (simp add: example_vdRs axles_of_def example_data example_axles
      copied_axle_example copied_vdr_example copied_measurement_example example_transformed_def)

text \<open>
  Two malformed snapshots: in one the VDR has no \<^verbatim>\<open>data\<close>, in the other \<^verbatim>\<open>vdRs\<close> is a
  number.
\<close>

lemma transform_malformed_examples:
  "snapshot_malformed
     (JObj [(''pkMeasurement'', JInt 7), (''id'', JStr ''7''), (''timestamp'', JStr ''t''),
            (''vdRs'', JArr [JObj [(''source'', JStr ''A'')]])]) \<and>
   transform_data
     (JObj [(''pkMeasurement'', JInt 7), (''id'', JStr ''7''), (''timestamp'', JStr ''t''),
            (''vdRs'', JArr [JObj [(''source'', JStr ''A'')]])]) = Inl (KeyError ''data'') \<and>
   snapshot_malformed
     (JObj [(''pkMeasurement'', JInt 7), (''id'', JStr ''7''), (''timestamp'', JStr ''t''),
            (''vdRs'', JInt 5)]) \<and>
   transform_data
     (JObj [(''pkMeasurement'', JInt 7), (''id'', JStr ''7''), (''timestamp'', JStr ''t''),
            (''vdRs'', JInt 5)]) = Inl TypeError"
  using transform_malformed
    [of "JObj [(''pkMeasurement'', JInt 7), (''id'', JStr ''7''), (''timestamp'', JStr ''t''),
            (''vdRs'', JArr [JObj [(''source'', JStr ''A'')]])]"]
    transform_malformed
    [of "JObj [(''pkMeasurement'', JInt 7), (''id'', JStr ''7''), (''timestamp'', JStr ''t''),
            (''vdRs'', JInt 5)]"]
  by (simp add: snapshot_malformed_def vdr_malformed_def measurement_keys_def
      transform_data_def)

text \<open>
  C5 fails on the code. A snapshot whose \<^verbatim>\<open>pkMeasurement\<close> is a string, whose \<^verbatim>\<open>id\<close> is
  a bool and whose \<^verbatim>\<open>timestamp\<close> is \<^verbatim>\<open>None\<close> has every required value of the wrong
  type, yet \<^verbatim>\<open>transform_data\<close> raises nothing and returns the values as a measurement
  tuple: a value that is only copied is never checked, although the docstring of
  \<^verbatim>\<open>transform_data\<close> announces a \<^verbatim>\<open>TypeError\<close> for it.
\<close>

theorem transform_accepts_wrong_types:
  "transform_data
     (JObj [(''pkMeasurement'', JStr ''seven''), (''id'', JBool True), (''timestamp'', JNull),
            (''vdRs'', JArr [])])
   = Inr ([[JStr ''seven'', JBool True, JNull]], [], [])"
  by (simp add: transform_data_def measurement_keys_def)

section \<open>Properties of the Source Adapter\<close>

lemma fetch_data_escapes:
  "(\<exists>v. snd (fetch_data base_url net endpoint) = Inr v)
     \<longleftrightarrow> only_request_exceptions (net (endpoint_url base_url endpoint))"
proof (cases "net (endpoint_url base_url endpoint)")
  case (GetRaised e)
  then show ?thesis
    by (cases e) (simp_all add: fetch_data_def)
next
  case (Response status_code body)
  show ?thesis
  proof (cases body)
    case (Inl e)
    with Response show ?thesis
      by (cases e) (simp_all add: fetch_data_def)
  next
    case (Inr v)
    with Response show ?thesis
      by (simp add: fetch_data_def)
  qed
qed

text \<open>
  C6, as amended. For every endpoint, \<^verbatim>\<open>fetch_data\<close> returns a value, and lets no
  fault escape, exactly when nothing but a \<^verbatim>\<open>RequestException\<close> is raised by the
  request or by decoding the body: on status 200 with a decodable body it returns the
  parsed body; on any other status the dict
  \<^verbatim>\<open>{"status": "error", "code": status_code}\<close>; on a \<^verbatim>\<open>RequestException\<close> raised by the
  request, or by decoding the body of a status 200 response, the dict
  \<^verbatim>\<open>{"status": "error", "message": str(e)}\<close>. Any other exception is not caught and
  leaves \<^verbatim>\<open>fetch_data\<close>.
\<close>

theorem fetch_data_returns:
  "(net (endpoint_url base_url endpoint) = Response 200 (Inr v) \<longrightarrow>
      snd (fetch_data base_url net endpoint) = Inr v)
   \<and> (net (endpoint_url base_url endpoint) = Response status_code body \<and> status_code \<noteq> 200 \<longrightarrow>
      snd (fetch_data base_url net endpoint)
        = Inr (JObj [(''status'', JStr ''error''), (''code'', JInt status_code)]))
   \<and> (net (endpoint_url base_url endpoint) = GetRaised (RequestException text) \<longrightarrow>
      snd (fetch_data base_url net endpoint)
        = Inr (JObj [(''status'', JStr ''error''), (''message'', JStr text)]))
   \<and> (net (endpoint_url base_url endpoint) = Response 200 (Inl (RequestException text)) \<longrightarrow>
      snd (fetch_data base_url net endpoint)
        = Inr (JObj [(''status'', JStr ''error''), (''message'', JStr text)]))
   \<and> ((\<exists>r. snd (fetch_data base_url net endpoint) = Inr r)
        \<longleftrightarrow> only_request_exceptions (net (endpoint_url base_url endpoint)))
   \<and> (\<not> only_request_exceptions (net (endpoint_url base_url endpoint)) \<longrightarrow>
        (\<exists>t. snd (fetch_data base_url net endpoint) = Inl (UncaughtRequestError t)))"
proof -
  have "\<not> only_request_exceptions (net (endpoint_url base_url endpoint)) \<longrightarrow>
        (\<exists>t. snd (fetch_data base_url net endpoint) = Inl (UncaughtRequestError t))"
    by (cases "net (endpoint_url base_url endpoint)" rule: only_request_exceptions.cases)
      (simp_all add: fetch_data_def)
  with fetch_data_escapes [of base_url net endpoint] show ?thesis
    by (simp add: fetch_data_def)
qed

theorem fetch_data_returns_witness:
  "snd (fetch_data RESTAPI_BASE_URL example_net ''data'') = Inr example_snapshot
   \<and> snd (fetch_data RESTAPI_BASE_URL unavailable_net ''data'')
     = Inr (JObj [(''status'', JStr ''error''), (''code'', JInt 503)])
   \<and> snd (fetch_data RESTAPI_BASE_URL refusing_net ''health'')
     = Inr (JObj [(''status'', JStr ''error''), (''message'', JStr ''Connection refused'')])
   \<and> snd (fetch_data RESTAPI_BASE_URL
        (\<lambda>url. Response 200 (Inl (RequestException ''Expecting value''))) ''health'')
     = Inr (JObj [(''status'', JStr ''error''), (''message'', JStr ''Expecting value'')])
   \<and> \<not> only_request_exceptions (undecodable_net (endpoint_url RESTAPI_BASE_URL ''health''))
   \<and> snd (fetch_data RESTAPI_BASE_URL undecodable_net ''health'')
     = Inl (UncaughtRequestError ''Expecting value'')"
  using fetch_data_returns [of example_net RESTAPI_BASE_URL "''data''" example_snapshot 200
      "Inr example_snapshot" "''x''"]
    fetch_data_returns [of unavailable_net RESTAPI_BASE_URL "''data''" JNull 503
      "Inr (JStr ''Service Unavailable'')" "''x''"]
    fetch_data_returns [of refusing_net RESTAPI_BASE_URL "''health''" JNull 200 "Inr JNull"
      "''Connection refused''"]
    fetch_data_returns [of "\<lambda>url. Response 200 (Inl (RequestException ''Expecting value''))"
      RESTAPI_BASE_URL "''health''" JNull 200 "Inr JNull" "''Expecting value''"]
    fetch_data_returns [of undecodable_net RESTAPI_BASE_URL "''health''" JNull 200 "Inr JNull"
      "''x''"]
  by (simp add: example_net_def unavailable_net_def refusing_net_def undecodable_net_def
      endpoint_url_def fetch_data_def)

text \<open>
  An outcome after which a fault leaves \<^verbatim>\<open>fetch_data\<close>: status 200 with a body that is
  no JSON, when the exception of \<^verbatim>\<open>response.json()\<close> is no \<^verbatim>\<open>RequestException\<close>.
\<close>

theorem fetch_data_escape_counterexample:
  "snd (fetch_data RESTAPI_BASE_URL undecodable_net ''health'')
     = Inl (UncaughtRequestError ''Expecting value'')"
  by (simp add: fetch_data_def undecodable_net_def)

section \<open>Properties of the Persistence Gateway\<close>

lemma flush_objects_None:
  "flush_objects accepts obs d = (None, d') \<Longrightarrow> d' = fold insert_row obs d"
  by (induction obs arbitrary: d) (auto split: if_splits)

lemma tuple_items_Inr: "tuple_items t is = Inr cs \<Longrightarrow> cs = map ((!) t) is"
proof (induction "is" arbitrary: cs)
  case Nil
  then show ?case by simp
next
  case (Cons i "is")
  from Cons.prems obtain v vs where v: "tuple_getitem t i = Inr v"
    and vs: "tuple_items t is = Inr vs" and cs: "cs = v # vs"
    by (auto simp: and_then_eq_Inr)
  from v have "v = t ! i"
    by (simp add: tuple_getitem_def split: if_splits)
  with Cons.IH [OF vs] cs show ?case by simp
qed

lemma session_flush_None:
  assumes "session_flush accepts s = (None, s')"
  shows "working s' = outlook s" and "pending s' = []" and "committed s' = committed s"
  using assms
  by (auto simp: session_flush_def outlook_def split: prod.splits option.splits
      dest: flush_objects_None)

lemma session_commit_None:
  assumes "session_commit accepts s = (None, s')"
  shows "committed s' = outlook s" and "working s' = outlook s" and "pending s' = []"
  using assms
  by (auto simp: session_commit_def split: prod.splits option.splits dest: session_flush_None)

lemma outlook_add: "outlook (session_add ob s) = insert_row ob (outlook s)"
  by (simp add: outlook_def session_add_def)

lemma committed_add [simp]: "committed (session_add ob s) = committed s"
  by (simp add: session_add_def)

lemma add_axles_None:
  "add_axles key axles_data s = (None, s') \<Longrightarrow>
     outlook s' = fold insert_row (map (\<lambda>a. Axle key (map ((!) a) [1..<20])) axles_data) (outlook s)
     \<and> committed s' = committed s"
proof (induction axles_data arbitrary: s)
  case Nil
  then show ?case by simp
next
  case (Cons a axles_data)
  from Cons.prems obtain cols where c: "tuple_items a [1..<20] = Inr cols"
    and r: "add_axles key axles_data (session_add (Axle key cols) s) = (None, s')"
    by (auto split: sum.splits)
  from c have "cols = map ((!) a) [1..<20]"
    by (rule tuple_items_Inr)
  with Cons.IH [OF r] show ?case
    by (simp add: outlook_add)
qed

lemma insert_vdrs_None:
  "insert_vdrs accepts vdrs_data axles_data s = (None, s') \<Longrightarrow>
     outlook s' = vdr_effect vdrs_data axles_data (outlook s) \<and> committed s' = committed s"
proof (induction vdrs_data arbitrary: s)
  case Nil
  then show ?case by simp
next
  case (Cons v vdrs_data)
  from Cons.prems obtain cols s1 s2 where c: "tuple_items v [0..<27] = Inr cols"
    and f: "session_flush accepts (session_add (VDR cols) s) = (None, s1)"
    and a: "add_axles (vdr_seq (working s1)) axles_data s1 = (None, s2)"
    and r: "insert_vdrs accepts vdrs_data axles_data s2 = (None, s')"
    by (auto split: sum.splits prod.splits option.splits)
  from c have cols: "cols = map ((!) v) [0..<27]"
    by (rule tuple_items_Inr)
  from session_flush_None [OF f]
  have w1: "working s1 = insert_row (VDR cols) (outlook s)" and p1: "pending s1 = []"
    and c1: "committed s1 = committed s"
    by (simp_all add: outlook_add)
  from w1 p1 have o1: "outlook s1 = insert_row (VDR cols) (outlook s)"
    by (simp add: outlook_def)
  from w1 have key: "vdr_seq (working s1) = Suc (vdr_seq (outlook s))"
    by simp
  from add_axles_None [OF a] Cons.IH [OF r] show ?case
    by (simp add: o1 key cols c1)
qed

lemma fold_axles_vdrs:
  "vdrs (fold insert_row (map (\<lambda>a. Axle key (c a)) as) d) = vdrs d
   \<and> vdr_seq (fold insert_row (map (\<lambda>a. Axle key (c a)) as) d) = vdr_seq d"
  by (induction as arbitrary: d) simp_all

lemma fold_axles:
  "\<exists>rows. axles (fold insert_row (map (\<lambda>a. Axle key (c a)) as) d) = axles d @ rows
      \<and> map snd rows = map (\<lambda>a. (key, c a)) as"
proof (induction as arbitrary: d)
  case Nil
  show ?case by simp
next
  case (Cons a as)
  from Cons.IH [of "insert_row (Axle key (c a)) d"] obtain rows where
    "axles (fold insert_row (map (\<lambda>a. Axle key (c a)) as) (insert_row (Axle key (c a)) d))
       = axles d @ (Suc (axle_seq d), key, c a) # rows"
    and "map snd rows = map (\<lambda>a. (key, c a)) as"
    by auto
  then have "axles (fold insert_row (map (\<lambda>a. Axle key (c a)) (a # as)) d)
       = axles d @ ((Suc (axle_seq d), key, c a) # rows)
     \<and> map snd ((Suc (axle_seq d), key, c a) # rows) = map (\<lambda>a. (key, c a)) (a # as)"
    by simp
  then show ?case by blast
qed

lemma fold_measurements:
  "axles (fold insert_row (map (\<lambda>m. Measurement (c m)) ms) d) = axles d
   \<and> vdrs (fold insert_row (map (\<lambda>m. Measurement (c m)) ms) d) = vdrs d
   \<and> vdr_seq (fold insert_row (map (\<lambda>m. Measurement (c m)) ms) d) = vdr_seq d"
  by (induction ms arbitrary: d) simp_all

lemma upt_0_Suc: "[0..<Suc n] = 0 # map Suc [0..<n]"
  by (simp add: upt_conv_Cons map_Suc_upt del: upt_Suc)

lemma vdr_effect_vdrs:
  "\<exists>rows. vdrs (vdr_effect vs as d) = vdrs d @ rows
      \<and> map fst rows = map (\<lambda>i. vdr_seq d + Suc i) [0..<length vs]"
proof (induction vs arbitrary: d)
  case Nil
  show ?case by simp
next
  case (Cons v vs)
  define d2 where "d2 = fold insert_row (map (\<lambda>a. Axle (Suc (vdr_seq d)) (map ((!) a) [1..<20])) as)
          (insert_row (VDR (map ((!) v) [0..<27])) d)"
  have v2: "vdrs d2 = vdrs d @ [(Suc (vdr_seq d), map ((!) v) [0..<27])]"
    and s2: "vdr_seq d2 = Suc (vdr_seq d)"
    by (simp_all add: d2_def fold_axles_vdrs)
  from Cons.IH [of d2] obtain rows where r: "vdrs (vdr_effect vs as d2) = vdrs d2 @ rows"
    and k: "map fst rows = map (\<lambda>i. vdr_seq d2 + Suc i) [0..<length vs]"
    by blast
  have "vdrs (vdr_effect (v # vs) as d) = vdrs d @ ((Suc (vdr_seq d), map ((!) v) [0..<27]) # rows)"
    using r v2 by (simp add: d2_def)
  moreover have "map fst ((Suc (vdr_seq d), map ((!) v) [0..<27]) # rows)
      = map (\<lambda>i. vdr_seq d + Suc i) [0..<length (v # vs)]"
    using k s2 by (simp add: upt_0_Suc comp_def del: upt_Suc)
  ultimately show ?case by blast
qed

lemma vdr_effect_axles:
  "\<exists>rows. axles (vdr_effect vs as d) = axles d @ rows
      \<and> map snd rows =
          concat (map (\<lambda>i. map (\<lambda>a. (vdr_seq d + Suc i, map ((!) a) [1..<20])) as) [0..<length vs])"
proof (induction vs arbitrary: d)
  case Nil
  show ?case by simp
next
  case (Cons v vs)
  define d1 where "d1 = insert_row (VDR (map ((!) v) [0..<27])) d"
  define d2 where "d2 = fold insert_row (map (\<lambda>a. Axle (Suc (vdr_seq d)) (map ((!) a) [1..<20])) as) d1"
  from fold_axles(1) [of "Suc (vdr_seq d)" "\<lambda>a. map ((!) a) [1..<20]" as d1]
  obtain rows0 where a2: "axles d2 = axles d @ rows0"
    and k0: "map snd rows0 = map (\<lambda>a. (Suc (vdr_seq d), map ((!) a) [1..<20])) as"
    by (auto simp: d2_def d1_def)
  have s2: "vdr_seq d2 = Suc (vdr_seq d)"
    by (simp add: d2_def d1_def fold_axles_vdrs)
  from Cons.IH [of d2] obtain rows where r: "axles (vdr_effect vs as d2) = axles d2 @ rows"
    and k: "map snd rows =
          concat (map (\<lambda>i. map (\<lambda>a. (vdr_seq d2 + Suc i, map ((!) a) [1..<20])) as) [0..<length vs])"
    by blast
  have "axles (vdr_effect (v # vs) as d) = axles d @ (rows0 @ rows)"
    using r a2 by (simp add: d2_def d1_def)
  moreover have "map snd (rows0 @ rows) =
          concat (map (\<lambda>i. map (\<lambda>a. (vdr_seq d + Suc i, map ((!) a) [1..<20])) as) [0..<length (v # vs)])"
    using k k0 s2 by (simp add: upt_0_Suc comp_def del: upt_Suc)
  ultimately show ?case by blast
qed

lemma add_measurements_None:
  "add_measurements ms s = (None, s') \<Longrightarrow>
     outlook s' = fold insert_row (map (\<lambda>m. Measurement (map ((!) m) [0, 1, 2])) ms) (outlook s)
     \<and> committed s' = committed s"
proof (induction ms arbitrary: s)
  case Nil
  then show ?case by simp
next
  case (Cons m ms)
  from Cons.prems obtain cols where c: "tuple_items m [0, 1, 2] = Inr cols"
    and r: "add_measurements ms (session_add (Measurement cols) s) = (None, s')"
    by (auto split: sum.splits)
  from c have "cols = map ((!) m) [0, 1, 2]"
    by (rule tuple_items_Inr)
  with Cons.IH [OF r] show ?case
    by (simp add: outlook_add)
qed

lemma outlook_flushed: "pending s = [] \<Longrightarrow> outlook s = working s"
  by (simp add: outlook_def)

lemma session_close_committed:
  "working s = committed s \<Longrightarrow> session_close s = committed s"
  by (simp add: session_close_def session_rollback_def Let_def)

lemma insert_data_None:
  assumes "insert_data accepts (ms, vs, as) d = (out, None, d')"
  shows "d' = vdr_effect vs as (fold insert_row (map (\<lambda>m. Measurement (map ((!) m) [0, 1, 2])) ms) d)"
proof -
  define s0 where "s0 = \<lparr>committed = d, working = d, pending = []\<rparr>"
  from assms obtain s4 where b: "insert_body accepts (ms, vs, as) s0 = (None, s4)"
    and d': "d' = session_close s4"
    by (auto simp: insert_data_def s0_def split: prod.splits option.splits)
  from b obtain s1 s2 s3 where m: "add_measurements ms s0 = (None, s1)"
    and c1: "session_commit accepts s1 = (None, s2)"
    and v: "insert_vdrs accepts vs as s2 = (None, s3)"
    and c2: "session_commit accepts s3 = (None, s4)"
    by (auto simp: insert_body_def split: prod.splits option.splits)
  have o0: "outlook s0 = d"
    by (simp add: s0_def outlook_def)
  from add_measurements_None [OF m] o0
  have o1: "outlook s1 = fold insert_row (map (\<lambda>m. Measurement (map ((!) m) [0, 1, 2])) ms) d"
    by simp
  from session_commit_None [OF c1] have "outlook s2 = outlook s1"
    by (simp add: outlook_flushed)
  with insert_vdrs_None [OF v] o1
  have o3: "outlook s3 = vdr_effect vs as (fold insert_row (map (\<lambda>m. Measurement (map ((!) m) [0, 1, 2])) ms) d)"
    by simp
  from session_commit_None [OF c2] have "session_close s4 = outlook s3"
    by (simp add: session_close_committed)
  with d' o3 show ?thesis by simp
qed

text \<open>
  C3. Whenever \<^verbatim>\<open>insert_data\<close> succeeds on N VDR tuples and a list of axle tuples,
  each VDR row gets the next generated key, and for each of these keys one axle row is
  inserted for every element of the whole axle list, in order: N times the length of
  the axle list in all, after the rows that were there before.
\<close>

theorem insert_data_axles_per_vdr:
  assumes "insert_data accepts (measurements_data, vdrs_data, axles_data) d = (out, None, d')"
  shows "map fst (drop (length (vdrs d)) (vdrs d'))
           = map (\<lambda>i. vdr_seq d + Suc i) [0..<length vdrs_data]
       \<and> map snd (drop (length (axles d)) (axles d'))
           = concat (map (\<lambda>i. map (\<lambda>a. (vdr_seq d + Suc i, map ((!) a) [1..<20])) axles_data)
               [0..<length vdrs_data])
       \<and> take (length (axles d)) (axles d') = axles d
       \<and> length (axles d') = length (axles d) + length vdrs_data * length axles_data"
proof -
  define d1 where
    "d1 = fold insert_row (map (\<lambda>m. Measurement (map ((!) m) [0, 1, 2])) measurements_data) d"
  have d': "d' = vdr_effect vdrs_data axles_data d1"
    using insert_data_None [OF assms] by (simp add: d1_def)
  have same: "axles d1 = axles d" "vdrs d1 = vdrs d" "vdr_seq d1 = vdr_seq d"
    unfolding d1_def using fold_measurements [of "\<lambda>m. map ((!) m) [0, 1, 2]" measurements_data d]
    by blast+
  from vdr_effect_vdrs [of vdrs_data axles_data d1] same d'
  obtain vrows where v: "vdrs d' = vdrs d @ vrows"
    and vk: "map fst vrows = map (\<lambda>i. vdr_seq d + Suc i) [0..<length vdrs_data]"
    by auto
  from vdr_effect_axles [of vdrs_data axles_data d1] same d'
  obtain arows where a: "axles d' = axles d @ arows"
    and ak: "map snd arows =
          concat (map (\<lambda>i. map (\<lambda>a. (vdr_seq d + Suc i, map ((!) a) [1..<20])) axles_data)
            [0..<length vdrs_data])"
    by auto
  have "length arows = length (map snd arows)"
    by simp
  also have "\<dots> = length vdrs_data * length axles_data"
    unfolding ak by (simp add: length_concat comp_def sum_list_triv)
  finally have len: "length arows = length vdrs_data * length axles_data" .
  from v vk a ak len show ?thesis by simp
qed

lemma two_vdrs_inserted:
  "insert_data accept_all
     ([example_measurement_tuple], [example_vdr_tuple, example_vdr_tuple],
      [example_axle_tuple, example_axle_tuple]) empty_database
   = ([DataInserted], None,
      snd (snd (insert_data accept_all two_vdrs_transformed empty_database)))"
  by code_simp

lemma two_vdrs_axles:
  "map (\<lambda>row. fst (snd row)) (axles (snd (snd (insert_data accept_all two_vdrs_transformed empty_database))))
     = [1, 1, 2, 2]"
  by code_simp

theorem insert_data_axles_per_vdr_witness:
  "insert_data accept_all
     ([example_measurement_tuple], [example_vdr_tuple, example_vdr_tuple],
      [example_axle_tuple, example_axle_tuple]) empty_database
   = ([DataInserted], None,
      snd (snd (insert_data accept_all two_vdrs_transformed empty_database)))
   \<and> map (\<lambda>row. fst (snd row))
        (axles (snd (snd (insert_data accept_all two_vdrs_transformed empty_database))))
     = [1, 1, 2, 2]
   \<and> length (axles (snd (snd (insert_data accept_all two_vdrs_transformed empty_database))))
     = 0 + 2 * 2"
  using insert_data_axles_per_vdr [OF two_vdrs_inserted] two_vdrs_inserted two_vdrs_axles
  by (simp add: empty_database_def)

subsection \<open>What a fault leaves behind\<close>

lemma add_measurements_committed: "committed (snd (add_measurements ms s)) = committed s"
  by (induction ms arbitrary: s) (simp_all split: sum.splits)

lemma add_axles_committed: "committed (snd (add_axles key as s)) = committed s"
  by (induction as arbitrary: s) (simp_all split: sum.splits)

lemma session_flush_committed: "committed (snd (session_flush accepts s)) = committed s"
  by (simp add: session_flush_def split: prod.splits option.splits)

lemma session_commit_Some: "session_commit accepts s = (Some e, s') \<Longrightarrow> committed s' = committed s"
  using session_flush_committed [of accepts s]
  by (auto simp: session_commit_def split: prod.splits option.splits)

lemma insert_vdrs_committed: "committed (snd (insert_vdrs accepts vs as s)) = committed s"
proof (induction vs arbitrary: s)
  case Nil
  show ?case by simp
next
  case (Cons v vs)
  show ?case
  proof (cases "tuple_items v [0..<27]")
    case (Inl e)
    then show ?thesis by simp
  next
    case (Inr cols)
    obtain r1 s1 where f: "session_flush accepts (session_add (VDR cols) s) = (r1, s1)"
      by (cases "session_flush accepts (session_add (VDR cols) s)")
    with session_flush_committed [of accepts "session_add (VDR cols) s"]
    have c1: "committed s1 = committed s"
      by simp
    obtain r2 s2 where a: "add_axles (vdr_seq (working s1)) as s1 = (r2, s2)"
      by (cases "add_axles (vdr_seq (working s1)) as s1")
    with add_axles_committed [of "vdr_seq (working s1)" as s1] c1
    have c2: "committed s2 = committed s"
      by simp
    from Inr f a c1 c2 Cons.IH [of s2] show ?thesis
      by (simp split: option.splits)
  qed
qed

lemma fold_measurements_rows:
  "measurements (fold insert_row (map (\<lambda>m. Measurement (c m)) ms) d) = measurements d @ map c ms"
  by (induction ms arbitrary: d) simp_all

lemma session_close_rollback_tables:
  "vdrs (session_close (session_rollback s)) = vdrs (committed s)"
  "axles (session_close (session_rollback s)) = axles (committed s)"
  "measurements (session_close (session_rollback s)) = measurements (committed s)"
  by (simp_all add: session_close_def session_rollback_def Let_def)

text \<open>
  The part of C1 that holds: when a fault leaves \<^verbatim>\<open>insert_data\<close>, no row of \<^verbatim>\<open>vdrs\<close>
  or \<^verbatim>\<open>axles\<close> of that call is in the database. The measurement rows are there or
  not, depending on whether the fault came after the first commit.
\<close>

lemma insert_data_fault_tables:
  assumes "insert_data accepts (ms, vs, as) d = (out, Some e, d')"
  shows "vdrs d' = vdrs d \<and> axles d' = axles d
     \<and> (measurements d' = measurements d
        \<or> measurements d' = measurements d @ map (\<lambda>m. map ((!) m) [0, 1, 2]) ms)"
proof -
  define s0 where "s0 = \<lparr>committed = d, working = d, pending = []\<rparr>"
  from assms obtain s' where b: "insert_body accepts (ms, vs, as) s0 = (Some e, s')"
    and d': "d' = session_close (session_rollback s')"
    by (auto simp: insert_data_def s0_def split: prod.splits option.splits)
  obtain r1 s1 where m: "add_measurements ms s0 = (r1, s1)"
    by (cases "add_measurements ms s0")
  with add_measurements_committed [of ms s0] have c1: "committed s1 = d"
    by (simp add: s0_def)
  have "committed s' = d \<or> committed s' =
      fold insert_row (map (\<lambda>m. Measurement (map ((!) m) [0, 1, 2])) ms) d"
  proof (cases r1)
    case (Some e1)
    with b m c1 show ?thesis
      by (simp add: insert_body_def)
  next
    case None
    obtain r2 s2 where c: "session_commit accepts s1 = (r2, s2)"
      by (cases "session_commit accepts s1")
    show ?thesis
    proof (cases r2)
      case (Some e2)
      with b m c None c1 session_commit_Some [of accepts s1 e2 s2] show ?thesis
        by (simp add: insert_body_def)
    next
      case r2: None
      from m None have o1: "outlook s1 = fold insert_row (map (\<lambda>m. Measurement (map ((!) m) [0, 1, 2])) ms) d"
        using add_measurements_None [of ms s0 s1] by (simp add: s0_def outlook_def)
      from c r2 have c2: "committed s2 = outlook s1"
        using session_commit_None(1) [of accepts s1 s2] by simp
      obtain r3 s3 where v: "insert_vdrs accepts vs as s2 = (r3, s3)"
        by (cases "insert_vdrs accepts vs as s2")
      with insert_vdrs_committed [of accepts vs as s2] have c3: "committed s3 = committed s2"
        by simp
      show ?thesis
      proof (cases r3)
        case (Some e3)
        with b m c v None r2 c3 c2 o1 show ?thesis
          by (simp add: insert_body_def)
      next
        case r3: None
        with b m c v None r2 have "session_commit accepts s3 = (Some e, s')"
          by (simp add: insert_body_def)
        from session_commit_Some [OF this] c3 c2 o1 show ?thesis
          by simp
      qed
    qed
  qed
  then show ?thesis
    unfolding d'
    using fold_measurements [of "\<lambda>m. map ((!) m) [0, 1, 2]" ms d]
      fold_measurements_rows [of "\<lambda>m. map ((!) m) [0, 1, 2]" ms d]
    by (auto simp: session_close_rollback_tables)
qed

text \<open>
  C1 fails on the code. The measurement is committed before the VDR loop starts, so a
  fault raised by the first VDR row is surfaced and rolled back, but the measurement row
  of the same call stays in the database.
\<close>

theorem insert_data_fault_leaves_measurement:
  "insert_data reject_vdrs example_transformed empty_database
   = ([], Some (DatabaseError ''rejected''),
      empty_database\<lparr>measurements := [example_measurement_tuple]\<rparr>)"
  by code_simp

section \<open>Properties of the Acquisition Loop\<close>

lemma py_eq_JStr: "py_eq v (JStr s) \<longleftrightarrow> v = JStr s"
  by (cases v) auto

lemma py_ne_JNull: "py_ne JNull v \<longleftrightarrow> v \<noteq> JNull"
  by (simp add: py_ne_def)

lemma urls_differ: "health_url \<noteq> data_url"
  by (simp add: health_url_def data_url_def endpoint_url_def)

lemma app_phase_same: "phase s = p \<Longrightarrow> s\<lparr>phase := p\<rparr> = s"
  by auto

subsection \<open>One pass of the second loop\<close>

lemma skip_pass:
  assumes "phase s = Polling retries" and "0 < retries"
    and "fetch_data RESTAPI_BASE_URL net ''data'' = (out, Inr json_data)"
    and "py_get json_data ''id'' = Inr current_id"
    and "py_eq current_id (last_current_id s)"
  shows "step gw (Net net) s =
           ([Print FetchingData, HttpGet data_url] @ map Print out @
            [Print (NoNewData current_id), Sleep 5], s)"
  using assms
  by (simp add: step_def poll_pass_def fetch_and_process_data_def py_ne_def loop_head_def
      data_url_def app_phase_same)

lemma process_pass:
  assumes "phase s = Polling retries" and "0 < retries"
    and "fetch_data RESTAPI_BASE_URL net ''data'' = (out, Inr json_data)"
    and "py_get json_data ''id'' = Inr current_id"
    and "py_ne current_id (last_current_id s)"
    and "transform_data json_data = Inr t"
    and "gw t (db s) = (printed, None, d)"
  shows "step gw (Net net) s =
           ([Print FetchingData, HttpGet data_url] @ map Print out @
            [Print (NewDataFound current_id), TransformCall json_data,
             Print InsertingData, InsertCall t] @ map Print printed @ [Sleep 5],
            s\<lparr>db := d, last_current_id := current_id\<rparr>)"
  using assms
  by (simp add: step_def poll_pass_def fetch_and_process_data_def loop_head_def
      data_url_def Let_def app_phase_same)

lemma insert_fault_pass:
  assumes "phase s = Polling retries" and "0 < retries"
    and "fetch_data RESTAPI_BASE_URL net ''data'' = (out, Inr json_data)"
    and "py_get json_data ''id'' = Inr current_id"
    and "py_ne current_id (last_current_id s)"
    and "transform_data json_data = Inr t"
    and "gw t (db s) = (printed, Some e, d)"
  shows "step gw (Net net) s =
           ([Print FetchingData, HttpGet data_url] @ map Print out @
            [Print (NewDataFound current_id), TransformCall json_data,
             Print InsertingData, InsertCall t] @ map Print printed @
            [Print (ErrorFetchingData e), Print (RetryingIn (retry_delay s)),
             Sleep (retry_delay s)],
            loop_head (retries - 1) (s\<lparr>db := d\<rparr>))"
  using assms
  by (simp add: step_def poll_pass_def fetch_and_process_data_def loop_head_def
      data_url_def Let_def)

lemma transform_fault_pass:
  assumes "phase s = Polling retries" and "0 < retries"
    and "fetch_data RESTAPI_BASE_URL net ''data'' = (out, Inr json_data)"
    and "py_get json_data ''id'' = Inr current_id"
    and "py_ne current_id (last_current_id s)"
    and "transform_data json_data = Inl e"
  shows "step gw (Net net) s =
           ([Print FetchingData, HttpGet data_url] @ map Print out @
            [Print (NewDataFound current_id), TransformCall json_data,
             Print (ErrorFetchingData e), Print (RetryingIn (retry_delay s)),
             Sleep (retry_delay s)],
            loop_head (retries - 1) s)"
  using assms
  by (simp add: step_def poll_pass_def fetch_and_process_data_def loop_head_def
      data_url_def Let_def)

subsection \<open>The example server\<close>

lemma example_fetch: "fetch_data RESTAPI_BASE_URL example_net ''data'' = ([], Inr example_snapshot)"
  by (simp add: fetch_data_def example_net_def endpoint_url_def)

lemma example_id: "py_get example_snapshot ''id'' = Inr (JStr ''7'')"
  by (simp add: example_snapshot_def)

lemma example_inserted:
  "insert_data accept_all example_transformed empty_database
     = ([DataInserted], None, snd (snd (insert_data accept_all example_transformed empty_database)))"
  by code_simp

lemma example_rejected:
  "insert_data reject_all example_transformed empty_database
     = ([], Some (DatabaseError ''rejected''), empty_database)"
  by code_simp

lemma polling_app_simps:
  "phase polling_app = Polling 10" "last_current_id polling_app = JNull"
  "db polling_app = empty_database" "retry_delay polling_app = 5" "max_retries polling_app = 10"
  by (simp_all add: polling_app_def init_app_def)

lemma after_example_simps:
  "phase after_example = Polling 10" "last_current_id after_example = JStr ''7''"
  "retry_delay after_example = 5"
  by (simp_all add: after_example_def polling_app_simps)

lemma example_processed:
  "step (insert_data accept_all) (Net example_net) polling_app =
     ([Print FetchingData, HttpGet data_url, Print (NewDataFound (JStr ''7'')),
       TransformCall example_snapshot, Print InsertingData, InsertCall example_transformed,
       Print DataInserted, Sleep 5], after_example)"
  using process_pass [of polling_app 10 example_net "[]" example_snapshot "JStr ''7''"
      example_transformed "insert_data accept_all" "[DataInserted]"
      "snd (snd (insert_data accept_all example_transformed empty_database))"]
    example_inserted
  by (simp add: polling_app_simps example_fetch example_id py_ne_def transform_example
      after_example_def)

subsection \<open>Unchanged identity\<close>

text \<open>
  C7. In every pass of the polling loop in which the fetched snapshot's \<^verbatim>\<open>id\<close> equals
  (\<^verbatim>\<open>==\<close>) the last processed one, neither \<^verbatim>\<open>transform_data\<close> nor \<^verbatim>\<open>insert_data\<close> is
  called, the application and its database are left as they were, and the pass ends
  with the sleep of 5 seconds before the next poll.
\<close>

theorem unchanged_identity_skipped:
  assumes "phase s = Polling retries" and "0 < retries"
    and "fetch_data RESTAPI_BASE_URL net ''data'' = (out, Inr json_data)"
    and "py_get json_data ''id'' = Inr current_id"
    and "py_eq current_id (last_current_id s)"
  shows "step gw (Net net) s =
           ([Print FetchingData, HttpGet data_url] @ map Print out @
            [Print (NoNewData current_id), Sleep 5], s)
         \<and> (\<forall>t. InsertCall t \<notin> set (fst (step gw (Net net) s)))
         \<and> (\<forall>j. TransformCall j \<notin> set (fst (step gw (Net net) s)))"
proof -
  have "step gw (Net net) s =
           ([Print FetchingData, HttpGet data_url] @ map Print out @
            [Print (NoNewData current_id), Sleep 5], s)"
    using assms by (rule skip_pass)
  then show ?thesis by auto
qed

text \<open>
  The example snapshot polled twice: the first pass processes it, the second pass, from
  the state the first one left, skips it.
\<close>

theorem unchanged_identity_skipped_witness:
  "snd (step (insert_data accept_all) (Net example_net) polling_app) = after_example
   \<and> phase after_example = Polling 10
   \<and> fetch_data RESTAPI_BASE_URL example_net ''data'' = ([], Inr example_snapshot)
   \<and> py_get example_snapshot ''id'' = Inr (JStr ''7'')
   \<and> py_eq (JStr ''7'') (last_current_id after_example)
   \<and> step (insert_data accept_all) (Net example_net) after_example =
       ([Print FetchingData, HttpGet data_url, Print (NoNewData (JStr ''7'')), Sleep 5],
        after_example)"
  using unchanged_identity_skipped [of after_example 10 example_net "[]" example_snapshot
      "JStr ''7''" "insert_data accept_all"]
  by (simp add: example_processed after_example_simps example_fetch example_id)

subsection \<open>A fault leaves the last processed identity alone\<close>

lemma fault_keeps_id:
  "fetch_and_process_data gw net s = (ev, Some e, s') \<Longrightarrow> last_current_id s' = last_current_id s"
  by (auto simp: fetch_and_process_data_def Let_def
      split: prod.splits sum.splits option.splits if_splits)

lemma id_changes_on_success:
  assumes "fetch_and_process_data gw net s = (ev, r, s')"
    and "last_current_id s' \<noteq> last_current_id s"
  shows "r = None \<and> (\<exists>t printed d. InsertCall t \<in> set ev \<and> gw t (db s) = (printed, None, d))"
  using assms
  by (fastforce simp: fetch_and_process_data_def Let_def
      split: prod.splits sum.splits option.splits if_splits)

lemma transform_called:
  assumes "fetch_and_process_data gw net s = (ev, r, s')" and "TransformCall j \<in> set ev"
  shows "\<exists>out current_id. fetch_data RESTAPI_BASE_URL net ''data'' = (out, Inr j)
      \<and> py_get j ''id'' = Inr current_id \<and> py_ne current_id (last_current_id s)"
  using assms
  by (auto simp: fetch_and_process_data_def Let_def
      split: prod.splits sum.splits option.splits if_splits)

lemma new_identity_attempted:
  assumes "fetch_data RESTAPI_BASE_URL net ''data'' = (out, Inr j)"
    and "py_get j ''id'' = Inr current_id" and "py_ne current_id (last_current_id s)"
  shows "TransformCall j \<in> set (fst (fetch_and_process_data gw net s))
     \<and> (\<forall>t. transform_data j = Inr t \<longrightarrow> InsertCall t \<in> set (fst (fetch_and_process_data gw net s)))"
  using assms
  by (auto simp: fetch_and_process_data_def Let_def
      split: prod.splits sum.splits option.splits if_splits)


text \<open>
  C9. A pass of \<^verbatim>\<open>fetch_and_process_data\<close> that ends in a fault leaves
  \<^verbatim>\<open>last_current_id\<close> as it was; the attribute changes only in a pass in which the
  gateway was called and returned without a fault; and after a pass in which
  \<^verbatim>\<open>transform_data\<close> was called and a fault was raised, the next poll of a snapshot with
  the same \<^verbatim>\<open>id\<close> calls \<^verbatim>\<open>transform_data\<close> again, and \<^verbatim>\<open>insert_data\<close> when the
  transformation succeeds, instead of skipping the snapshot.
\<close>

theorem fault_leaves_identity_unprocessed:
  "(fetch_and_process_data gw net s = (ev, Some e, s') \<longrightarrow>
      last_current_id s' = last_current_id s)
   \<and> (fetch_and_process_data gw net s = (ev, r, s') \<and> last_current_id s' \<noteq> last_current_id s \<longrightarrow>
      r = None \<and> (\<exists>t printed d. InsertCall t \<in> set ev \<and> gw t (db s) = (printed, None, d)))
   \<and> (fetch_and_process_data gw net s = (ev, Some e, s') \<and> TransformCall json_data \<in> set ev \<and>
      fetch_data RESTAPI_BASE_URL net' ''data'' = (out', Inr json_data') \<and>
      py_get json_data' ''id'' = py_get json_data ''id'' \<longrightarrow>
      TransformCall json_data' \<in> set (fst (fetch_and_process_data gw net' s')) \<and>
      (\<forall>t. transform_data json_data' = Inr t \<longrightarrow>
         InsertCall t \<in> set (fst (fetch_and_process_data gw net' s'))))"
proof (intro conjI impI)
  assume "fetch_and_process_data gw net s = (ev, Some e, s')"
  then show "last_current_id s' = last_current_id s"
    by (rule fault_keeps_id)
next
  assume "fetch_and_process_data gw net s = (ev, r, s') \<and> last_current_id s' \<noteq> last_current_id s"
  then show "r = None" and "\<exists>t printed d. InsertCall t \<in> set ev \<and> gw t (db s) = (printed, None, d)"
    using id_changes_on_success by blast+
next
  assume a: "fetch_and_process_data gw net s = (ev, Some e, s') \<and> TransformCall json_data \<in> set ev \<and>
      fetch_data RESTAPI_BASE_URL net' ''data'' = (out', Inr json_data') \<and>
      py_get json_data' ''id'' = py_get json_data ''id''"
  then obtain current_id where "py_get json_data ''id'' = Inr current_id"
    and "py_ne current_id (last_current_id s)"
    using transform_called by blast
  moreover from a have "last_current_id s' = last_current_id s"
    using fault_keeps_id by blast
  ultimately have "py_get json_data' ''id'' = Inr current_id"
    and "py_ne current_id (last_current_id s')"
    using a by simp_all
  with a show "TransformCall json_data' \<in> set (fst (fetch_and_process_data gw net' s'))"
    and "\<forall>t. transform_data json_data' = Inr t \<longrightarrow>
         InsertCall t \<in> set (fst (fetch_and_process_data gw net' s'))"
    using new_identity_attempted by blast+
qed

lemma polling_app_db: "polling_app\<lparr>db := empty_database\<rparr> = polling_app"
  by (simp add: polling_app_def init_app_def)

lemma example_pass_rejected:
  "fetch_and_process_data (insert_data reject_all) example_net polling_app =
     ([Print FetchingData, HttpGet data_url, Print (NewDataFound (JStr ''7'')),
       TransformCall example_snapshot, Print InsertingData, InsertCall example_transformed],
      Some (DatabaseError ''rejected''), polling_app)"
  by (simp add: fetch_and_process_data_def example_fetch example_id polling_app_simps
      py_ne_def transform_example example_rejected data_url_def polling_app_db)

lemma example_pass_accepted:
  "fetch_and_process_data (insert_data accept_all) example_net polling_app =
     ([Print FetchingData, HttpGet data_url, Print (NewDataFound (JStr ''7'')),
       TransformCall example_snapshot, Print InsertingData, InsertCall example_transformed,
       Print DataInserted, Sleep 5],
      None, after_example)"
proof -
  define d where "d = snd (snd (insert_data accept_all example_transformed empty_database))"
  have i: "insert_data accept_all example_transformed empty_database = ([DataInserted], None, d)"
    unfolding d_def by (rule example_inserted)
  show ?thesis
    unfolding after_example_def d_def [symmetric]
    by (simp add: fetch_and_process_data_def example_fetch example_id polling_app_simps
        py_ne_def transform_example data_url_def i)
qed

theorem fault_leaves_identity_unprocessed_witness:
  "fetch_and_process_data (insert_data reject_all) example_net polling_app =
     ([Print FetchingData, HttpGet data_url, Print (NewDataFound (JStr ''7'')),
       TransformCall example_snapshot, Print InsertingData, InsertCall example_transformed],
      Some (DatabaseError ''rejected''), polling_app)
   \<and> last_current_id polling_app = JNull
   \<and> fetch_data RESTAPI_BASE_URL example_net ''data'' = ([], Inr example_snapshot)
   \<and> TransformCall example_snapshot
        \<in> set (fst (fetch_and_process_data (insert_data reject_all) example_net polling_app))
   \<and> transform_data example_snapshot = Inr example_transformed
   \<and> InsertCall example_transformed
        \<in> set (fst (fetch_and_process_data (insert_data reject_all) example_net polling_app))
   \<and> fetch_and_process_data (insert_data accept_all) example_net polling_app =
     ([Print FetchingData, HttpGet data_url, Print (NewDataFound (JStr ''7'')),
       TransformCall example_snapshot, Print InsertingData, InsertCall example_transformed,
       Print DataInserted, Sleep 5],
      None, after_example)
   \<and> last_current_id after_example \<noteq> last_current_id polling_app
   \<and> insert_data accept_all example_transformed (db polling_app)
       = ([DataInserted], None, db after_example)"
  using fault_leaves_identity_unprocessed
      [of "insert_data reject_all" example_net polling_app
        "[Print FetchingData, HttpGet data_url, Print (NewDataFound (JStr ''7'')),
          TransformCall example_snapshot, Print InsertingData, InsertCall example_transformed]"
        "DatabaseError ''rejected''" polling_app "Some (DatabaseError ''rejected'')"
        example_snapshot example_net "[]" example_snapshot]
    fault_leaves_identity_unprocessed
      [of "insert_data accept_all" example_net polling_app
        "[Print FetchingData, HttpGet data_url, Print (NewDataFound (JStr ''7'')),
          TransformCall example_snapshot, Print InsertingData, InsertCall example_transformed,
          Print DataInserted, Sleep 5]"
        "DatabaseError ''rejected''" after_example None
        example_snapshot example_net "[]" example_snapshot]
    example_inserted
  by (simp add: example_pass_rejected example_pass_accepted example_fetch transform_example
      polling_app_simps after_example_simps after_example_def)

subsection \<open>A failed fetch\<close>

lemma failed_fetch_result:
  assumes "failed_fetch (net data_url)"
  shows "\<exists>out error_dict. fetch_data RESTAPI_BASE_URL net ''data'' = (out, Inr error_dict)
      \<and> py_get error_dict ''id'' = Inr JNull
      \<and> transform_data error_dict = Inl (KeyError ''pkMeasurement'')"
proof (cases "net data_url")
  case (Response status_code body)
  with assms show ?thesis
    by (simp add: fetch_data_def data_url_def transform_data_def measurement_keys_def)
next
  case (GetRaised e)
  with assms show ?thesis
    by (cases e) (simp_all add: fetch_data_def data_url_def transform_data_def measurement_keys_def)
qed

text \<open>
  C10. When the data fetch fails (a transport error or a status other than 200),
  \<^verbatim>\<open>fetch_data\<close> returns an error dict without an \<^verbatim>\<open>id\<close> key, so the identity reads
  \<^verbatim>\<open>None\<close>; whenever the last processed identity is not \<^verbatim>\<open>None\<close>, the pass is not
  skipped: the error dict is passed to \<^verbatim>\<open>transform_data\<close>, which raises
  \<^verbatim>\<open>KeyError('pkMeasurement')\<close>, and the fault takes one retry from the budget.
\<close>

theorem failed_fetch_spends_retry:
  assumes "failed_fetch (net data_url)" and "last_current_id s \<noteq> JNull"
    and "phase s = Polling retries" and "0 < retries"
  shows "\<exists>out error_dict.
           fetch_data RESTAPI_BASE_URL net ''data'' = (out, Inr error_dict)
         \<and> py_get error_dict ''id'' = Inr JNull
         \<and> transform_data error_dict = Inl (KeyError ''pkMeasurement'')
         \<and> step gw (Net net) s =
             ([Print FetchingData, HttpGet data_url] @ map Print out @
              [Print (NewDataFound JNull), TransformCall error_dict,
               Print (ErrorFetchingData (KeyError ''pkMeasurement'')),
               Print (RetryingIn (retry_delay s)), Sleep (retry_delay s)],
              s\<lparr>phase := (if retries - 1 > 0 then Polling (retries - 1) else Terminated)\<rparr>)"
proof -
  from assms(1) obtain out error_dict where
    f: "fetch_data RESTAPI_BASE_URL net ''data'' = (out, Inr error_dict)"
    and i: "py_get error_dict ''id'' = Inr JNull"
    and t: "transform_data error_dict = Inl (KeyError ''pkMeasurement'')"
    using failed_fetch_result [of net] by blast
  from assms(2) have n: "py_ne JNull (last_current_id s)"
    by (simp add: py_ne_JNull)
  from transform_fault_pass [OF assms(3,4) f i n t, of gw] f i t show ?thesis
    by (simp add: loop_head_def)
qed

theorem failed_fetch_spends_retry_witness:
  "failed_fetch (unavailable_net data_url) \<and> last_current_id after_example \<noteq> JNull
   \<and> phase after_example = Polling 10
   \<and> step (insert_data accept_all) (Net unavailable_net) after_example =
       ([Print FetchingData, HttpGet data_url, Print (NewDataFound JNull),
         TransformCall (JObj [(''status'', JStr ''error''), (''code'', JInt 503)]),
         Print (ErrorFetchingData (KeyError ''pkMeasurement'')), Print (RetryingIn 5), Sleep 5],
        after_example\<lparr>phase := Polling 9\<rparr>)"
  using failed_fetch_spends_retry [of unavailable_net after_example 10 "insert_data accept_all"]
  by (auto simp: unavailable_net_def after_example_simps fetch_data_def)

subsection \<open>Waiting for the server\<close>

lemma probe_raised:
  assumes "net health_url = GetRaised e"
  shows "is_server_running net =
           (case e of
              RequestException text \<Rightarrow> ([RequestFailed text], Inr (JBool False))
            | OtherException text \<Rightarrow> ([], Inl (UncaughtRequestError text)))"
  using assms
  by (cases e) (simp_all add: is_server_running_def fetch_data_def health_url_def)

lemma probe_status:
  assumes "net health_url = Response status_code body" and "status_code \<noteq> 200"
  shows "is_server_running net = ([], Inr (JBool False))"
  using assms
  by (simp add: is_server_running_def fetch_data_def health_url_def)

lemma probe_undecodable:
  assumes "net health_url = Response 200 (Inl e)"
  shows "is_server_running net =
           (case e of
              RequestException text \<Rightarrow> ([RequestFailed text], Inr (JBool False))
            | OtherException text \<Rightarrow> ([], Inl (UncaughtRequestError text)))"
  using assms
  by (cases e) (simp_all add: is_server_running_def fetch_data_def health_url_def)

lemma probe_object:
  assumes "net health_url = Response 200 (Inr (JObj d))"
  shows "is_server_running net =
           ([], Inr (if d = [] then JObj [] else JBool (map_of d ''status'' = Some (JStr ''OK''))))"
  using assms
  by (auto simp: is_server_running_def fetch_data_def health_url_def py_eq_JStr
      split: option.splits)

lemma probe_value:
  assumes "net health_url = Response 200 (Inr v)" and "\<not> is_object v"
  shows "is_server_running net = ([], if py_truthy v then Inl AttributeError else Inr v)"
  using assms
  by (cases v) (simp_all add: is_server_running_def fetch_data_def health_url_def)

lemma is_server_running_healthy:
  assumes "is_server_running net = (out, r)"
  shows "(\<exists>v. r = Inr v \<and> py_truthy v) \<longleftrightarrow> reports_ok (net health_url)"
proof (cases "net health_url")
  case (GetRaised e)
  with probe_raised [of net e] assms show ?thesis
    by (cases e) auto
next
  case (Response status_code body)
  show ?thesis
  proof (cases "status_code = 200")
    case False
    with probe_status [of net status_code body] Response assms show ?thesis
      by (cases body; cases "projr body") auto
  next
    case True
    show ?thesis
    proof (cases body)
      case (Inl e)
      from probe_undecodable [of net e] Response True Inl assms show ?thesis
        by (cases e) auto
    next
      case (Inr v)
      show ?thesis
      proof (cases "is_object v")
        case True
        then obtain d where "v = JObj d"
          by (cases v) auto
        with probe_object [of net d] Response \<open>status_code = 200\<close> Inr assms show ?thesis
          by auto
      next
        case False
        with probe_value [of net v] Response \<open>status_code = 200\<close> Inr assms show ?thesis
          by (cases v) (auto split: if_splits)
      qed
    qed
  qed
qed

lemma is_server_running_plain:
  assumes "is_server_running net = (out, r)" and "plain_answer (net health_url)"
  shows "\<exists>v. r = Inr v"
proof (cases "net health_url")
  case (GetRaised e)
  with probe_raised [of net e] assms show ?thesis
    by (cases e) auto
next
  case (Response status_code body)
  show ?thesis
  proof (cases "status_code = 200")
    case False
    with probe_status [of net status_code body] Response assms show ?thesis
      by auto
  next
    case True
    show ?thesis
    proof (cases body)
      case (Inl e)
      from probe_undecodable [of net e] Response True Inl assms show ?thesis
        by (cases e) auto
    next
      case (Inr v)
      show ?thesis
      proof (cases "is_object v")
        case True
        then obtain d where "v = JObj d"
          by (cases v) auto
        with probe_object [of net d] Response \<open>status_code = 200\<close> Inr assms show ?thesis
          by auto
      next
        case False
        with probe_value [of net v] Response \<open>status_code = 200\<close> Inr assms show ?thesis
          by (auto split: if_splits)
      qed
    qed
  qed
qed

lemma run_Cons:
  "run gw (inp # rest) s =
     (fst (step gw inp s) @ fst (run gw rest (snd (step gw inp s))),
      snd (run gw rest (snd (step gw inp s))))"
  by (simp split: prod.splits)

lemma no_sleep_among_prints: "count_list (map Print out) (Sleep n) = 0"
  by (induction out) simp_all

lemma no_get_among_prints: "count_list (map Print out) (HttpGet url) = 0"
  by (induction out) simp_all

lemma wait_unhealthy:
  assumes "phase s = WaitingForSource" and "\<not> reports_ok (net health_url)"
  shows "\<exists>ev s'. step gw (Net net) s = (ev, s') \<and> HttpGet data_url \<notin> set ev
      \<and> (s' = s \<or> (\<exists>e. phase s' = Crashed e))"
proof -
  obtain out r where i: "is_server_running net = (out, r)"
    by (cases "is_server_running net")
  show ?thesis
  proof (cases r)
    case (Inl e)
    with i assms(1) show ?thesis
      using urls_differ
      by (auto simp: step_def wait_pass_def health_url_def [symmetric])
  next
    case (Inr v)
    with i assms(2) have "\<not> py_truthy v"
      using is_server_running_healthy by blast
    with i Inr assms(1) show ?thesis
      using urls_differ
      by (auto simp: step_def wait_pass_def health_url_def [symmetric])
  qed
qed

lemma wait_plain:
  assumes "phase s = WaitingForSource" and "\<not> reports_ok (net health_url)"
    and "plain_answer (net health_url)"
  shows "\<exists>out. step gw (Net net) s =
           ([HttpGet health_url] @ map Print out @ [Print WaitingForServer, Sleep 1], s)"
proof -
  obtain out r where i: "is_server_running net = (out, r)"
    by (cases "is_server_running net")
  with assms(3) obtain v where r: "r = Inr v"
    using is_server_running_plain by blast
  with i assms(2) have "\<not> py_truthy v"
    using is_server_running_healthy by blast
  with i r assms(1) show ?thesis
    by (auto simp: step_def wait_pass_def health_url_def [symmetric])
qed

lemma run_crashed: "phase s = Crashed e \<Longrightarrow> run gw inps s = ([], s)"
  by (induction inps) (simp_all add: step_def)

lemma waiting_no_data_fetch:
  assumes "phase s = WaitingForSource" and "\<forall>net\<in>set nets. \<not> reports_ok (net health_url)"
  shows "HttpGet data_url \<notin> set (fst (run gw (map Net nets) s))"
  using assms(2)
proof (induction nets)
  case Nil
  show ?case by simp
next
  case (Cons net nets)
  from Cons.prems have "\<not> reports_ok (net health_url)"
    by simp
  with assms(1) obtain ev s' where st: "step gw (Net net) s = (ev, s')"
    and ev: "HttpGet data_url \<notin> set ev" and s': "s' = s \<or> (\<exists>e. phase s' = Crashed e)"
    using wait_unhealthy by blast
  from s' show ?case
  proof
    assume "s' = s"
    with st ev Cons show ?thesis
      by (simp add: run_Cons del: run.simps)
  next
    assume "\<exists>e. phase s' = Crashed e"
    then have "run gw (map Net nets) s' = ([], s')"
      using run_crashed by blast
    with st ev show ?thesis
      by (simp add: run_Cons del: run.simps)
  qed
qed

lemma waiting_stays:
  assumes "phase s = WaitingForSource"
    and "\<forall>net\<in>set nets. \<not> reports_ok (net health_url) \<and> plain_answer (net health_url)"
  shows "snd (run gw (map Net nets) s) = s
     \<and> count_list (fst (run gw (map Net nets) s)) (Sleep 1) = length nets
     \<and> count_list (fst (run gw (map Net nets) s)) (HttpGet health_url) = length nets"
  using assms(2)
proof (induction nets)
  case Nil
  show ?case by simp
next
  case (Cons net nets)
  from Cons.prems assms(1) obtain out where
    st: "step gw (Net net) s =
           ([HttpGet health_url] @ map Print out @ [Print WaitingForServer, Sleep 1], s)"
    using wait_plain by fastforce
  from Cons have "snd (run gw (map Net nets) s) = s
     \<and> count_list (fst (run gw (map Net nets) s)) (Sleep 1) = length nets
     \<and> count_list (fst (run gw (map Net nets) s)) (HttpGet health_url) = length nets"
    by simp
  with st show ?case
    by (simp add: run_Cons no_sleep_among_prints no_get_among_prints del: run.simps)
qed

text \<open>
  C8, as amended. While the health endpoint answers with anything other than status
  200 and a JSON object whose \<^verbatim>\<open>status\<close> is \<^verbatim>\<open>"OK"\<close>, the loop issues no data fetch;
  and as long as each of these answers is a transport error, a status other than 200,
  or a body that is a JSON object or a falsy value, the loop stays in its first loop
  unchanged, polling the health endpoint once and sleeping one second in each pass,
  however many passes there are.
\<close>

theorem unhealthy_server_keeps_waiting:
  assumes "phase s = WaitingForSource"
    and "\<forall>net\<in>set nets. \<not> reports_ok (net health_url)"
  shows "HttpGet data_url \<notin> set (fst (run gw (map Net nets) s))
     \<and> ((\<forall>net\<in>set nets. plain_answer (net health_url)) \<longrightarrow>
          snd (run gw (map Net nets) s) = s
        \<and> count_list (fst (run gw (map Net nets) s)) (Sleep 1) = length nets
        \<and> count_list (fst (run gw (map Net nets) s)) (HttpGet health_url) = length nets)"
  using waiting_no_data_fetch [OF assms] waiting_stays [OF assms(1), of nets gw] assms(2)
  by blast

theorem unhealthy_server_keeps_waiting_witness:
  "phase (init_app empty_database) = WaitingForSource
   \<and> \<not> reports_ok (unavailable_net health_url) \<and> \<not> reports_ok (refusing_net health_url)
   \<and> plain_answer (unavailable_net health_url) \<and> plain_answer (refusing_net health_url)
   \<and> HttpGet data_url \<notin> set (fst (run (insert_data accept_all)
         (map Net [unavailable_net, refusing_net]) (init_app empty_database)))
   \<and> snd (run (insert_data accept_all) (map Net [unavailable_net, refusing_net])
         (init_app empty_database)) = init_app empty_database
   \<and> count_list (fst (run (insert_data accept_all) (map Net [unavailable_net, refusing_net])
         (init_app empty_database))) (Sleep 1) = 2"
  using unhealthy_server_keeps_waiting [of "init_app empty_database"
      "[unavailable_net, refusing_net]" "insert_data accept_all"]
  by (simp add: init_app_def unavailable_net_def refusing_net_def)

text \<open>
  Two answers of the health endpoint that are not status 200 with the payload
  \<^verbatim>\<open>{"status": "OK"}\<close>: with one more entry in the payload the loop takes the server
  as running and goes on to fetch data; with a JSON string as the payload
  \<^verbatim>\<open>is_server_running\<close> raises \<^verbatim>\<open>AttributeError\<close> and \<^verbatim>\<open>run\<close> ends with it.
\<close>

theorem unhealthy_server_counterexample:
  "verbose_health_net health_url
     = Response 200 (Inr (JObj [(''status'', JStr ''OK''), (''uptime'', JInt 1)]))
   \<and> phase (snd (run (insert_data accept_all) [Net verbose_health_net] (init_app empty_database)))
     = Polling 10
   \<and> HttpGet data_url \<in> set (fst (run (insert_data accept_all)
         [Net verbose_health_net, Net verbose_health_net] (init_app empty_database)))
   \<and> string_health_net health_url = Response 200 (Inr (JStr ''starting''))
   \<and> phase (snd (run (insert_data accept_all) [Net string_health_net] (init_app empty_database)))
     = Crashed AttributeError"
  by (simp add: verbose_health_net_def string_health_net_def init_app_def step_def
      wait_pass_def is_server_running_def fetch_data_def loop_head_def poll_pass_def
      fetch_and_process_data_def py_ne_def data_url_def)

subsection \<open>Exhausting the retries\<close>

lemma example_health: "reports_ok (example_net health_url)"
  by (simp add: example_net_def health_url_def)

lemma healthy_pass:
  assumes "phase s = WaitingForSource" and "reports_ok (net health_url)"
  shows "step gw (Net net) s =
           ([HttpGet health_url, Print ServerStarted, CreateTables], loop_head (max_retries s) s)"
proof -
  from assms(2) obtain d where n: "net health_url = Response 200 (Inr (JObj d))"
    and ok: "map_of d ''status'' = Some (JStr ''OK'')"
    by (cases "net health_url" rule: reports_ok.cases) auto
  from ok have "d \<noteq> []"
    by auto
  with probe_object [of net d] n ok have "is_server_running net = ([], Inr (JBool True))"
    by simp
  with assms(1) show ?thesis
    by (simp add: step_def wait_pass_def health_url_def [symmetric])
qed

lemma rejected_pass:
  assumes "0 < n"
  shows "step (insert_data reject_all) (Net example_net) (polling_app\<lparr>phase := Polling n\<rparr>) =
           (rejected_pass_events,
            polling_app\<lparr>phase := (if n - 1 > 0 then Polling (n - 1) else Terminated)\<rparr>)"
proof -
  have "fetch_and_process_data (insert_data reject_all) example_net (polling_app\<lparr>phase := Polling n\<rparr>) =
     ([Print FetchingData, HttpGet data_url, Print (NewDataFound (JStr ''7'')),
       TransformCall example_snapshot, Print InsertingData, InsertCall example_transformed],
      Some (DatabaseError ''rejected''), polling_app\<lparr>phase := Polling n\<rparr>)"
    by (simp add: fetch_and_process_data_def example_fetch example_id polling_app_simps
        py_ne_def transform_example example_rejected data_url_def)
  with assms show ?thesis
    by (simp add: step_def poll_pass_def loop_head_def rejected_pass_events_def
        polling_app_simps)
qed

lemma rejected_run:
  "0 < n \<Longrightarrow> int k \<le> n \<Longrightarrow>
     run (insert_data reject_all) (replicate k (Net example_net)) (polling_app\<lparr>phase := Polling n\<rparr>) =
       (concat (replicate k rejected_pass_events),
        polling_app\<lparr>phase := (if n - int k > 0 then Polling (n - int k) else Terminated)\<rparr>)"
proof (induction k arbitrary: n)
  case 0
  then show ?case by simp
next
  case (Suc k)
  note st = rejected_pass [OF Suc.prems(1)]
  show ?case
  proof (cases "n - 1 > 0")
    case True
    from Suc.prems have "int k \<le> n - 1"
      by simp
    from Suc.IH [OF True this] st True show ?thesis
      by (simp add: algebra_simps)
  next
    case False
    with Suc.prems have "k = 0" and "n = 1"
      by simp_all
    with st show ?thesis
      by simp
  qed
qed

subsection \<open>The exhaustion report is dead code\<close>

lemma on_exception_prints: "MaximumRetriesReached \<notin> set (fst (on_exception e))"
  by (cases e) simp_all

lemma fetch_data_prints: "MaximumRetriesReached \<notin> set (fst (fetch_data b net ep))"
  by (simp add: fetch_data_def on_exception_prints split: http_outcome.splits sum.splits)

lemma is_server_running_prints: "MaximumRetriesReached \<notin> set (fst (is_server_running net))"
  using fetch_data_prints [of RESTAPI_BASE_URL net "''health''"]
  by (auto simp: is_server_running_def split: prod.splits sum.splits)

lemma insert_data_prints: "MaximumRetriesReached \<notin> set (fst (insert_data accepts t d))"
  by (simp add: insert_data_def split: prod.splits option.splits)

lemma pass_never_reports:
  "Print MaximumRetriesReached \<notin> set (fst (fetch_and_process_data (insert_data accepts) net s))"
proof -
  obtain out r where f: "fetch_data RESTAPI_BASE_URL net ''data'' = (out, r)"
    by (cases "fetch_data RESTAPI_BASE_URL net ''data''")
  with fetch_data_prints [of RESTAPI_BASE_URL net "''data''"]
  have o: "MaximumRetriesReached \<notin> set out"
    by simp
  have p: "\<And>t printed r' d. insert_data accepts t (db s) = (printed, r', d)
      \<Longrightarrow> MaximumRetriesReached \<notin> set printed"
    using insert_data_prints [of accepts _ "db s"] by (metis fst_conv)
  from f o p show ?thesis
    by (auto simp: fetch_and_process_data_def Let_def
        split: prod.splits sum.splits option.splits if_splits)
qed

lemma step_never_reports:
  assumes "\<forall>n. phase s = Polling n \<longrightarrow> 0 < n"
  shows "Print MaximumRetriesReached \<notin> set (fst (step (insert_data accepts) inp s))
     \<and> (\<forall>n. phase (snd (step (insert_data accepts) inp s)) = Polling n \<longrightarrow> 0 < n)"
proof (cases "phase s")
  case WaitingForSource
  show ?thesis
  proof (cases inp)
    case Interrupt
    with WaitingForSource show ?thesis
      by (simp add: step_def wait_pass_def)
  next
    case (Net net)
    obtain out r where i: "is_server_running net = (out, r)"
      by (cases "is_server_running net")
    with is_server_running_prints [of net] have "MaximumRetriesReached \<notin> set out"
      by simp
    with WaitingForSource Net i show ?thesis
      by (auto simp: step_def wait_pass_def loop_head_def Let_def split: sum.splits if_splits)
  qed
next
  case (Polling n)
  with assms have n: "0 < n"
    by simp
  show ?thesis
  proof (cases inp)
    case Interrupt
    with Polling show ?thesis
      by (simp add: step_def poll_pass_def)
  next
    case (Net net)
    with Polling n pass_never_reports [of accepts net s] show ?thesis
      by (auto simp: step_def poll_pass_def loop_head_def split: prod.splits option.splits if_splits)
  qed
next
  case Terminated
  with assms show ?thesis by (simp add: step_def)
next
  case (Crashed e)
  with assms show ?thesis by (simp add: step_def)
qed

lemma run_never_reports:
  "\<forall>n. phase s = Polling n \<longrightarrow> 0 < n \<Longrightarrow>
     Print MaximumRetriesReached \<notin> set (fst (run (insert_data accepts) inps s))"
proof (induction inps arbitrary: s)
  case Nil
  show ?case by simp
next
  case (Cons inp inps)
  from step_never_reports [OF Cons.prems, of accepts inp] Cons.IH show ?case
    by (simp add: run_Cons del: run.simps)
qed

text \<open>
  Whatever the database engine and the server do, the application never prints
  \<^verbatim>\<open>Maximum retries reached. Exiting.\<close>: the branch that prints it is under
  \<^verbatim>\<open>while retries > 0\<close> and is taken only when \<^verbatim>\<open>retries > 0\<close> is false.
\<close>

lemma exhaustion_report_unreachable:
  "Print MaximumRetriesReached \<notin> set (fst (run (insert_data accepts) inps (init_app d)))"
  by (rule run_never_reports) (simp add: init_app_def)

text \<open>
  C2 fails on the code. The server is up and serves the example snapshot, and the
  database rejects every row. After the pass that finds the server and exactly ten
  failed passes the loop has ended, and all it has printed in each of them is the fault
  and the retry notice: the line \<^verbatim>\<open>Maximum retries reached. Exiting.\<close> is never printed.
  After nine failed passes the loop is still polling.
\<close>

theorem retries_exhausted_without_report:
  "run (insert_data reject_all) (replicate 11 (Net example_net)) (init_app empty_database) =
     ([HttpGet health_url, Print ServerStarted, CreateTables]
        @ concat (replicate 10 rejected_pass_events),
      polling_app\<lparr>phase := Terminated\<rparr>)
   \<and> Print MaximumRetriesReached \<notin> set (fst (run (insert_data reject_all)
         (replicate 11 (Net example_net)) (init_app empty_database)))
   \<and> phase (snd (run (insert_data reject_all) (replicate 10 (Net example_net))
         (init_app empty_database))) = Polling 1"
proof -
  have h: "step (insert_data reject_all) (Net example_net) (init_app empty_database) =
      ([HttpGet health_url, Print ServerStarted, CreateTables], polling_app\<lparr>phase := Polling 10\<rparr>)"
    using healthy_pass [of "init_app empty_database" example_net "insert_data reject_all"]
    by (simp add: example_health init_app_def loop_head_def polling_app_def)
  have r10: "run (insert_data reject_all) (replicate 10 (Net example_net)) (polling_app\<lparr>phase := Polling 10\<rparr>) =
       (concat (replicate 10 rejected_pass_events), polling_app\<lparr>phase := Terminated\<rparr>)"
    using rejected_run [of 10 10] by simp
  have r9: "run (insert_data reject_all) (replicate 9 (Net example_net)) (polling_app\<lparr>phase := Polling 10\<rparr>) =
       (concat (replicate 9 rejected_pass_events), polling_app\<lparr>phase := Polling 1\<rparr>)"
    using rejected_run [of 10 9] by simp
  have e11: "replicate 11 (Net example_net) = Net example_net # replicate 10 (Net example_net)"
    and e10: "replicate 10 (Net example_net) = Net example_net # replicate 9 (Net example_net)"
    by (simp_all add: numeral_eq_Suc)
  have no: "Print MaximumRetriesReached \<notin> set rejected_pass_events"
    by (simp add: rejected_pass_events_def)
  have run11: "run (insert_data reject_all) (replicate 11 (Net example_net)) (init_app empty_database) =
     ([HttpGet health_url, Print ServerStarted, CreateTables]
        @ concat (replicate 10 rejected_pass_events),
      polling_app\<lparr>phase := Terminated\<rparr>)"
    unfolding e11 run_Cons h by (simp add: r10)
  have run10: "phase (snd (run (insert_data reject_all) (replicate 10 (Net example_net))
         (init_app empty_database))) = Polling 1"
    unfolding e10 run_Cons h by (simp add: r9)
  from run11 run10 no show ?thesis
    by simp
qed

end
